theory Spec2Isabelle
  imports Complex_Main "HOL-Library.Word" "HOL-Library.Multiset"
begin

unbundle bit_operations_syntax

section \<open>Data model\<close>

text \<open>
  A JavaScript \<open>number\<close> is an IEEE double: \<open>NaN\<close>, an infinity or a finite value.
  \<open>jsnum\<close> has these three kinds; its arithmetic, below, is exact on finite values up to
  the overflow threshold, from which a result is an infinity (rounding of the mantissa,
  underflow and the sign of zero are not modelled).

  Where a number holds a coordinate, a magnitude or an indicator value of an ordinary
  size, it is read as a \<open>real\<close>: finite and with exact arithmetic.  Counts and array
  indices are \<open>nat\<close>; the generator's 32-bit integer arithmetic is \<open>32 word\<close>.

  Field names that clash with constants of HOL carry a prefix: \<open>px\<close>, \<open>py\<close> for
  \<open>Point.x\<close>, \<open>Point.y\<close>; \<open>ind_id\<close>, \<open>ind_name\<close>, \<open>ind_min\<close>, \<open>ind_max\<close>,
  \<open>ind_unit\<close> for the fields of \<open>Indicator\<close>; \<open>rid\<close> for \<open>Region.id\<close>.  The record of
  an indicator is generic in the type of its three numbers: \<open>Indicator\<close> has them as
  reals, \<open>jsnum Indicator_of\<close> as JavaScript numbers.
\<close>

datatype jsnum = NaN | PInf | NInf | Fin real

record point =
  px :: real
  py :: real

datatype category = growth | stability | social

record 'n Indicator_of =
  ind_id :: string
  ind_name :: string
  current :: 'n
  ind_min :: 'n
  ind_max :: 'n
  ind_unit :: string
  category :: category

type_synonym Indicator = "real Indicator_of"

section \<open>utils/indicators.ts\<close>

text \<open>
  The operations of JavaScript that \<open>normalizeIndicator\<close> uses.  A finite result at or
  beyond \<open>2 ^ 1024 - 2 ^ 970\<close> in absolute value (the midpoint between the largest double
  and \<open>2 ^ 1024\<close>) rounds to an infinity.  A comparison with \<open>NaN\<close> is false;
  \<open>Math.min\<close> and \<open>Math.max\<close> return \<open>NaN\<close> when an argument is \<open>NaN\<close>.
\<close>

definition overflow_threshold :: real where
  "overflow_threshold = 2 ^ 1024 - 2 ^ 970"

definition js_round :: "real \<Rightarrow> jsnum" where
  "js_round r =
     (if overflow_threshold \<le> r then PInf
      else if r \<le> - overflow_threshold then NInf
      else Fin r)"

fun js_sub :: "jsnum \<Rightarrow> jsnum \<Rightarrow> jsnum" where
  "js_sub NaN b = NaN"
| "js_sub a NaN = NaN"
| "js_sub PInf PInf = NaN"
| "js_sub NInf NInf = NaN"
| "js_sub PInf b = PInf"
| "js_sub NInf b = NInf"
| "js_sub (Fin x) PInf = NInf"
| "js_sub (Fin x) NInf = PInf"
| "js_sub (Fin x) (Fin y) = js_round (x - y)"

fun js_div :: "jsnum \<Rightarrow> jsnum \<Rightarrow> jsnum" where
  "js_div NaN b = NaN"
| "js_div a NaN = NaN"
| "js_div PInf (Fin y) = (if y < 0 then NInf else PInf)"
| "js_div NInf (Fin y) = (if y < 0 then PInf else NInf)"
| "js_div PInf b = NaN"
| "js_div NInf b = NaN"
| "js_div (Fin x) PInf = Fin 0"
| "js_div (Fin x) NInf = Fin 0"
| "js_div (Fin x) (Fin y) =
     (if y = 0 then (if x = 0 then NaN else if 0 < x then PInf else NInf)
      else js_round (x / y))"

fun js_le :: "jsnum \<Rightarrow> jsnum \<Rightarrow> bool" where
  "js_le NaN b = False"
| "js_le a NaN = False"
| "js_le NInf b = True"
| "js_le a PInf = True"
| "js_le PInf b = False"
| "js_le a NInf = False"
| "js_le (Fin x) (Fin y) = (x \<le> y)"

fun Math_min :: "jsnum \<Rightarrow> jsnum \<Rightarrow> jsnum" where
  "Math_min NaN b = NaN"
| "Math_min a NaN = NaN"
| "Math_min a b = (if js_le a b then a else b)"

fun Math_max :: "jsnum \<Rightarrow> jsnum \<Rightarrow> jsnum" where
  "Math_max NaN b = NaN"
| "Math_max a NaN = NaN"
| "Math_max a b = (if js_le a b then b else a)"

text \<open>
  \<open>normalizeIndicator\<close> on JavaScript numbers:
  \<^verbatim>\<open>const { current, min, max } = indicator;
  if (max <= min) return 0.5;
  const normalized = (current - min) / (max - min);
  return Math.max(0, Math.min(1, normalized));\<close>
\<close>

definition normalizeIndicator_js :: "jsnum Indicator_of \<Rightarrow> jsnum" where
  "normalizeIndicator_js indicator =
     (if js_le (ind_max indicator) (ind_min indicator) then Fin 0.5
      else let normalized = js_div (js_sub (current indicator) (ind_min indicator))
                                   (js_sub (ind_max indicator) (ind_min indicator))
           in Math_max (Fin 0) (Math_min (Fin 1) normalized))"

text \<open>An indicator with real fields, as the JavaScript object with those finite numbers.\<close>

definition toJs :: "Indicator \<Rightarrow> jsnum Indicator_of" where
  "toJs i =
     \<lparr>ind_id = ind_id i, ind_name = ind_name i, current = Fin (current i),
      ind_min = Fin (ind_min i), ind_max = Fin (ind_max i), ind_unit = ind_unit i,
      category = category i\<rparr>"

text \<open>
  The same function read on reals.  It is what \<open>normalizeIndicator_js\<close> computes when the
  fields are finite and \<open>max - min\<close> does not overflow (lemma
  \<open>normalizeIndicator_js_finite\<close>), and it is the reading that the geometry below uses.
\<close>

text \<open>
  \<^verbatim>\<open>if (max <= min) return 0.5;
  const normalized = (current - min) / (max - min);
  return Math.max(0, Math.min(1, normalized));\<close>
\<close>

definition normalizeIndicator :: "Indicator \<Rightarrow> real" where
  "normalizeIndicator indicator =
     (if ind_max indicator \<le> ind_min indicator then 0.5
      else let normalized = (current indicator - ind_min indicator)
                            / (ind_max indicator - ind_min indicator)
           in max 0 (min 1 normalized))"

section \<open>utils/hashing.ts\<close>

text \<open>
  \<open>createRNG(seed)\<close> returns a closure over the variable \<open>seed\<close>; the state of the
  closure is the value of that variable, and a call maps the state to the number returned
  and the next state.  \<open>seed += 0x6D2B79F5\<close> is an addition of numbers (the variable is
  not truncated); the bitwise operators and \<open>Math.imul\<close> then work on the value modulo
  \<open>2 ^ 32\<close>.  The state is an \<open>int\<close>: the seed is an integer (\<open>hashString\<close> returns
  one) and stays exact below \<open>2 ^ 53\<close>.
\<close>

definition createRNG :: "int \<Rightarrow> int" where
  "createRNG seed = seed"

definition rng :: "int \<Rightarrow> real \<times> int" where
  "rng seed =
     (let seed' = seed + 0x6D2B79F5;
          t0 = (word_of_int seed' :: 32 word);
          t1 = (t0 XOR drop_bit 15 t0) * (t0 OR 1);
          t2 = t1 XOR (t1 + (t1 XOR drop_bit 7 t1) * (t1 OR 61))
      in (real (unat (t2 XOR drop_bit 14 t2)) / 4294967296, seed'))"

text \<open>
  \<open>seededShuffle\<close> copies its argument (\<open>[...array]\<close>) and swaps in the copy.  Arrays
  are objects, so the model keeps them in a store: a list of arrays, an array's address
  being its index.  The function takes the store and the address of \<open>array\<close>, allocates
  \<open>result\<close> at the next free address, and returns that address with the new store.

  \<open>[result[i], result[j]] = [result[j], result[i]]\<close> reads both elements before it
  writes.  \<open>Math.floor(rng() * (i + 1))\<close> is at most \<open>i\<close>, since \<open>rng()\<close> is below 1.
\<close>

type_synonym 'a arrays = "'a list list"

function seededShuffle_loop :: "'a arrays \<Rightarrow> nat \<Rightarrow> int \<Rightarrow> nat \<Rightarrow> 'a arrays" where
  "seededShuffle_loop h result st i =
     (if i > 0 then
        (case rng st of (r, st') \<Rightarrow>
           let j = nat \<lfloor>r * real (i + 1)\<rfloor>;
               arr = h ! result
           in seededShuffle_loop (h[result := arr[i := arr ! j, j := arr ! i]])
                result st' (i - 1))
      else h)"
  by pat_completeness auto
termination
  by (relation "measure (\<lambda>(h, result, st, i). i)") auto

declare seededShuffle_loop.simps [simp del]

definition seededShuffle :: "'a arrays \<Rightarrow> nat \<Rightarrow> int \<Rightarrow> nat \<times> 'a arrays" where
  "seededShuffle h array seed =
     (let result = length h;
          h1 = h @ [h ! array];
          st = createRNG seed
      in (result, seededShuffle_loop h1 result st (length (h1 ! result) - 1)))"

section \<open>logic/regions.ts\<close>

datatype RegionType =
  Forehead | Nose | Eyes | Mouth | Cheeks | Chin | Hair | Neck | Background

datatype tier = primary | secondary | auxiliary

text \<open>
  A region's polygon is a list of vertices: of points where a region is read as a value,
  of the addresses of point objects where the identity of the objects matters.
\<close>

record 'p Region =
  rid :: RegionType
  priority :: real
  polygon :: "'p list"
  tier :: tier

abbreviation Pt :: "real \<Rightarrow> real \<Rightarrow> point" where
  "Pt a b \<equiv> \<lparr>px = a, py = b\<rparr>"

definition FACE_REGIONS :: "point Region list" where
  "FACE_REGIONS =
    [\<lparr>rid = Forehead, priority = 1,
       polygon = [Pt 0.3 0.1, Pt 0.7 0.1, Pt 0.8 0.25, Pt 0.2 0.25], tier = primary\<rparr>,
     \<lparr>rid = Eyes, priority = 2,
       polygon = [Pt 0.2 0.25, Pt 0.8 0.25, Pt 0.8 0.45, Pt 0.2 0.45], tier = primary\<rparr>,
     \<lparr>rid = Nose, priority = 3,
       polygon = [Pt 0.4 0.25, Pt 0.6 0.25, Pt 0.65 0.6, Pt 0.35 0.6], tier = primary\<rparr>,
     \<lparr>rid = Mouth, priority = 4,
       polygon = [Pt 0.3 0.6, Pt 0.7 0.6, Pt 0.75 0.75, Pt 0.25 0.75], tier = primary\<rparr>,
     \<lparr>rid = Background, priority = 0,
       polygon = [Pt 0 0, Pt 1 0, Pt 1 1, Pt 0 1], tier = primary\<rparr>,
     \<lparr>rid = Cheeks, priority = 5,
       polygon = [Pt 0.15 0.25, Pt 0.35 0.6, Pt 0.65 0.6, Pt 0.85 0.25], tier = secondary\<rparr>,
     \<lparr>rid = Chin, priority = 6,
       polygon = [Pt 0.3 0.75, Pt 0.7 0.75, Pt 0.5 0.9], tier = secondary\<rparr>,
     \<lparr>rid = Hair, priority = 7,
       polygon = [Pt 0.1 0.0, Pt 0.9 0.0, Pt 1.0 0.5, Pt 0.9 0.3, Pt 0.1 0.3, Pt 0.0 0.5],
       tier = auxiliary\<rparr>,
     \<lparr>rid = Neck, priority = 8,
       polygon = [Pt 0.3 0.85, Pt 0.7 0.85, Pt 0.7 1.0, Pt 0.3 1.0], tier = auxiliary\<rparr>]"

text \<open>
  \<^verbatim>\<open>FACE_REGIONS.filter(region => {
      if (indicatorCount <= 3) return region.tier === 'primary';
      if (indicatorCount <= 6) return region.tier === 'primary' || region.tier === 'secondary';
      return true; })\<close>
\<close>

definition getUnlockedRegions :: "int \<Rightarrow> point Region list" where
  "getUnlockedRegions indicatorCount =
     filter (\<lambda>region.
        if indicatorCount \<le> 3 then tier region = primary
        else if indicatorCount \<le> 6 then tier region = primary \<or> tier region = secondary
        else True) FACE_REGIONS"

text \<open>
  The edge test of the ray casting, for the vertices \<open>vi = polygon[i]\<close> and
  \<open>vj = polygon[j]\<close>.  JavaScript's \<open>&&\<close> evaluates the division only when the two
  \<open>y\<close> comparisons differ, hence only when \<open>yj \<noteq> yi\<close>.
\<close>

definition intersect :: "point \<Rightarrow> point \<Rightarrow> point \<Rightarrow> bool" where
  "intersect pt vi vj =
     (((py vi > py pt) \<noteq> (py vj > py pt)) \<and>
      px pt < (px vj - px vi) * (py pt - py vi) / (py vj - py vi) + px vi)"

text \<open>
  \<^verbatim>\<open>for (let i = 0, j = polygon.length - 1; i < polygon.length; j = i++)\<close>:
  the loop state is \<open>(i, j, inside)\<close>.  On the empty polygon \<open>j\<close> starts at \<open>-1\<close> in the
  source and at \<open>0\<close> here; the body never runs there, so \<open>j\<close> is never read.
\<close>

function isPointInPolygon_loop :: "point \<Rightarrow> point list \<Rightarrow> nat \<Rightarrow> nat \<Rightarrow> bool \<Rightarrow> bool" where
  "isPointInPolygon_loop pt poly i j inside =
     (if i < length poly
      then isPointInPolygon_loop pt poly (i + 1) i
             (if intersect pt (poly ! i) (poly ! j) then \<not> inside else inside)
      else inside)"
  by pat_completeness auto
termination
  by (relation "measure (\<lambda>(pt, poly, i, j, inside). length poly - i)") auto

declare isPointInPolygon_loop.simps [simp del]

definition isPointInPolygon :: "point \<Rightarrow> point list \<Rightarrow> bool" where
  "isPointInPolygon pt poly = isPointInPolygon_loop pt poly 0 (length poly - 1) False"

text \<open>
  \<open>getRegionAt\<close>: \<open>dynamicRegions || getUnlockedRegions(indicatorCount)\<close> takes the
  supplied list whenever one is supplied (an empty array is truthy).  The copy is sorted
  with the comparator \<open>b.priority - a.priority\<close>; \<open>Array.prototype.sort\<close> is stable,
  as is \<open>sort_key\<close> on the negated priority.
\<close>

fun getRegionAt_loop :: "point \<Rightarrow> point Region list \<Rightarrow> RegionType" where
  "getRegionAt_loop pt [] = Background"
| "getRegionAt_loop pt (region # rest) =
     (if isPointInPolygon pt (polygon region) then rid region
      else getRegionAt_loop pt rest)"

definition getRegionAt ::
  "real \<Rightarrow> real \<Rightarrow> int \<Rightarrow> point Region list option \<Rightarrow> RegionType" where
  "getRegionAt x y indicatorCount dynamicRegions =
     (let regions = (case dynamicRegions of Some rs \<Rightarrow> rs
                     | None \<Rightarrow> getUnlockedRegions indicatorCount);
          sorted = sort_key (\<lambda>r. - priority r) regions
      in getRegionAt_loop (Pt x y) sorted)"

text \<open>
  \<open>getDynamicRegions\<close>.  \<open>regionMap[region.id]\<close> is an indicator or \<open>undefined\<close>.  Each
  branch computes its constants from \<open>magnitude\<close> and from the copied polygon
  (\<open>reduce\<close>), and then runs one \<open>forEach\<close> whose callback rewrites a vertex from its own
  coordinates; \<open>distortion\<close> is that callback.  The \<open>console.log\<close> calls are left out.
\<close>

definition distortion :: "RegionType \<Rightarrow> real \<Rightarrow> point list \<Rightarrow> point \<Rightarrow> point" where
  "distortion region_id magnitude shiftedPolygon =
     (if region_id = Forehead then
        let shiftY = (magnitude - 0.5) * 0.15;
            scaleY = 1.0 + (magnitude - 0.5) * 0.6;
            topY = foldl (\<lambda>mn p. min mn (py p)) 1 shiftedPolygon
        in (\<lambda>p. p\<lparr>py := topY + (py p - topY) * scaleY - shiftY\<rparr>)
      else if region_id = Mouth then
        let sentiment = magnitude;
            scaleX = 0.6 + sentiment * 0.8;
            scaleY = 0.8 + sentiment * 0.4;
            centerX = foldl (\<lambda>acc p. acc + px p) 0 shiftedPolygon
                      / real (length shiftedPolygon);
            centerY = foldl (\<lambda>acc p. acc + py p) 0 shiftedPolygon
                      / real (length shiftedPolygon)
        in (\<lambda>p. \<lparr>px = centerX + (px p - centerX) * scaleX,
                  py = centerY + (py p - centerY) * scaleY\<rparr>)
      else if region_id = Chin then
        let skewX = (magnitude - 0.5) * 0.2
        in if magnitude > 0.5
           then (\<lambda>p. let sideFactor = (if px p > 0.5 then 1.5 else 0.5)
                      in p\<lparr>px := px p + (py p - 0.75) * skewX * sideFactor\<rparr>)
           else (\<lambda>p. p\<lparr>px := px p + (py p - 0.75) * skewX\<rparr>)
      else if region_id = Eyes \<or> region_id = Cheeks then
        let angleDeg = (magnitude - 0.5) * 30;
            angleRad = (angleDeg * pi) / 180;
            cs = cos angleRad;
            sn = sin angleRad;
            centerX = foldl (\<lambda>acc p. acc + px p) 0 shiftedPolygon
                      / real (length shiftedPolygon);
            centerY = foldl (\<lambda>acc p. acc + py p) 0 shiftedPolygon
                      / real (length shiftedPolygon)
        in if magnitude > 0.6
           then (\<lambda>p. let isLeft = px p < 0.5;
                          scaleFactor = (if isLeft then 1.2 else 0.9);
                          dx = px p - centerX;
                          dy = py p - centerY;
                          rx = centerX + (dx * cs - dy * sn);
                          ry = centerY + (dx * sn + dy * cs)
                      in \<lparr>px = centerX + (rx - centerX) * scaleFactor, py = ry\<rparr>)
           else (\<lambda>p. let dx = px p - centerX;
                          dy = py p - centerY
                      in \<lparr>px = centerX + (dx * cs - dy * sn),
                         py = centerY + (dx * sn + dy * cs)\<rparr>)
      else (\<lambda>p. p))"

text \<open>
  Read as values: the regions that \<open>getDynamicRegions\<close> returns.  The parameter
  \<open>indicators\<close> is not used by the source.
\<close>

definition dynamicRegion ::
  "(RegionType \<Rightarrow> Indicator option) \<Rightarrow> point Region \<Rightarrow> point Region" where
  "dynamicRegion regionMap region =
     (case regionMap (rid region) of
        None \<Rightarrow> region
      | Some indicator \<Rightarrow>
          let magnitude = normalizeIndicator indicator;
              shiftedPolygon = polygon region
          in \<lparr>rid = rid region, priority = priority region,
              polygon = map (distortion (rid region) magnitude shiftedPolygon) shiftedPolygon,
              tier = tier region\<rparr>)"

definition getDynamicRegions ::
  "Indicator list \<Rightarrow> (RegionType \<Rightarrow> Indicator option) \<Rightarrow> point Region list" where
  "getDynamicRegions indicators regionMap = map (dynamicRegion regionMap) FACE_REGIONS"

text \<open>
  With the point objects in a store (a list of points, an object's address being its
  index), a polygon is a list of addresses.  Only point objects are ever written:
  \<open>[...region.polygon].map(p => ({ ...p }))\<close> allocates a fresh object per vertex, and
  \<open>forEach\<close> assigns to the fields of the objects of \<open>shiftedPolygon\<close>.  A region without
  an indicator is returned as it is, with the template's own vertex objects.
\<close>

type_synonym store = "point list"

definition deref :: "store \<Rightarrow> nat list \<Rightarrow> point list" where
  "deref st refs = map (\<lambda>a. st ! a) refs"

definition derefRegion :: "store \<Rightarrow> nat Region \<Rightarrow> point Region" where
  "derefRegion st region =
     \<lparr>rid = rid region, priority = priority region,
      polygon = deref st (polygon region), tier = tier region\<rparr>"

definition copyPolygon :: "store \<Rightarrow> nat list \<Rightarrow> nat list \<times> store" where
  "copyPolygon st refs = ([length st ..< length st + length refs], st @ deref st refs)"

definition forEach :: "(point \<Rightarrow> point) \<Rightarrow> nat list \<Rightarrow> store \<Rightarrow> store" where
  "forEach f refs st = fold (\<lambda>a s. s[a := f (s ! a)]) refs st"

definition dynamicRegion_store ::
  "(RegionType \<Rightarrow> Indicator option) \<Rightarrow> nat Region \<Rightarrow> store \<Rightarrow> nat Region \<times> store" where
  "dynamicRegion_store regionMap region st =
     (case regionMap (rid region) of
        None \<Rightarrow> (region, st)
      | Some indicator \<Rightarrow>
          let magnitude = normalizeIndicator indicator;
              (shiftedPolygon, st1) = copyPolygon st (polygon region);
              st2 = forEach (distortion (rid region) magnitude (deref st1 shiftedPolygon))
                      shiftedPolygon st1
          in (\<lparr>rid = rid region, priority = priority region,
               polygon = shiftedPolygon, tier = tier region\<rparr>, st2))"

fun map_store ::
  "(nat Region \<Rightarrow> store \<Rightarrow> nat Region \<times> store) \<Rightarrow> nat Region list \<Rightarrow> store
   \<Rightarrow> nat Region list \<times> store" where
  "map_store f [] st = ([], st)"
| "map_store f (region # rest) st =
     (case f region st of (r, st1) \<Rightarrow>
      case map_store f rest st1 of (rs, st2) \<Rightarrow> (r # rs, st2))"

text \<open>
  The module constant \<open>FACE_REGIONS\<close> in the store: the vertex objects of the nine
  templates, in order, from address 0.
\<close>

fun allocRegions :: "point Region list \<Rightarrow> store \<Rightarrow> nat Region list \<times> store" where
  "allocRegions [] st = ([], st)"
| "allocRegions (region # rest) st =
     (case allocRegions rest (st @ polygon region) of (rs, st') \<Rightarrow>
        (\<lparr>rid = rid region, priority = priority region,
          polygon = [length st ..< length st + length (polygon region)],
          tier = tier region\<rparr> # rs, st'))"

definition FACE_REGIONS_refs :: "nat Region list" where
  "FACE_REGIONS_refs = fst (allocRegions FACE_REGIONS [])"

definition FACE_REGIONS_store :: store where
  "FACE_REGIONS_store = snd (allocRegions FACE_REGIONS [])"

definition getDynamicRegions_store ::
  "Indicator list \<Rightarrow> (RegionType \<Rightarrow> Indicator option) \<Rightarrow> store \<Rightarrow> nat Region list \<times> store" where
  "getDynamicRegions_store indicators regionMap st =
     map_store (dynamicRegion_store regionMap) FACE_REGIONS_refs st"

section \<open>utils/image-processor.ts\<close>

text \<open>
  \<open>warpCaricature\<close> draws on a canvas that starts white.  What a region contributes is
  one drawing step: clip to the target polygon (in pixels), set the transform, draw the
  source image, restore.  The canvas is modelled by the list of the steps drawn so far; a
  skipped region adds none.  Reading \<open>.x\<close> of a missing vertex, or \<open>.polygon\<close> of a
  missing target region, throws a \<open>TypeError\<close> inside the \<open>onload\<close> handler.  The two
  guards before the drawing (\<open>cv\<close> undefined, no 2D context) resolve with the input
  image.  The unused constants \<open>a\<close> and \<open>c\<close> of the source are left out.
\<close>

datatype js_error = TypeError

record transform =
  ta :: real
  tb :: real
  tc :: real
  td :: real
  te :: real
  tf :: real

record draw_op =
  clip :: "point list"
  matrix :: transform

datatype warp_outcome = Input_unchanged | Canvas "draw_op list" | Uncaught js_error

definition warpRegion ::
  "real \<Rightarrow> real \<Rightarrow> point Region \<Rightarrow> point Region option \<Rightarrow> js_error + draw_op option" where
  "warpRegion width height sRegion tRegion =
     (if rid sRegion = Background then Inr None
      else case tRegion of
        None \<Rightarrow> Inl TypeError
      | Some tR \<Rightarrow>
          if length (polygon sRegion) < 3 \<or> length (polygon tR) < 3 then Inl TypeError
          else
            let p0s = polygon sRegion ! 0; p1s = polygon sRegion ! 1; p2s = polygon sRegion ! 2;
                p0t = polygon tR ! 0; p1t = polygon tR ! 1; p2t = polygon tR ! 2;
                x0s = px p0s * width; y0s = py p0s * height;
                x1s = px p1s * width; y1s = py p1s * height;
                x2s = px p2s * width; y2s = py p2s * height;
                x0t = px p0t * width; y0t = py p0t * height;
                x1t = px p1t * width; y1t = py p1t * height;
                x2t = px p2t * width; y2t = py p2t * height;
                denom = x0s * (y1s - y2s) - x1s * (y0s - y2s) + x2s * (y0s - y1s)
            in if \<bar>denom\<bar> < 0.0001 then Inr None
               else
                 let det = x0s * (y1s - y2s) - y0s * (x1s - x2s) + (x1s * y2s - x2s * y1s)
                 in if \<bar>det\<bar> < 0.001 then Inr None
                    else
                      let idet = 1 / det;
                          m00 = (y1s - y2s) * idet;
                          m01 = (y2s - y0s) * idet;
                          m02 = (y0s - y1s) * idet;
                          m10 = (x2s - x1s) * idet;
                          m11 = (x0s - x2s) * idet;
                          m12 = (x1s - x0s) * idet;
                          m20 = (x1s * y2s - x2s * y1s) * idet;
                          m21 = (x2s * y0s - x0s * y2s) * idet;
                          m22 = (x0s * y1s - x1s * y0s) * idet;
                          a' = m00 * x0t + m01 * x1t + m02 * x2t;
                          c' = m10 * x0t + m11 * x1t + m12 * x2t;
                          e' = m20 * x0t + m21 * x1t + m22 * x2t;
                          b' = m00 * y0t + m01 * y1t + m02 * y2t;
                          d' = m10 * y0t + m11 * y1t + m12 * y2t;
                          f' = m20 * y0t + m21 * y1t + m22 * y2t
                      in Inr (Some
                           \<lparr>clip = map (\<lambda>p. Pt (px p * width) (py p * height)) (polygon tR),
                            matrix = \<lparr>ta = a', tb = b', tc = c', td = d', te = e', tf = f'\<rparr>\<rparr>))"

fun warpCaricature_forEach ::
  "real \<Rightarrow> real \<Rightarrow> point Region list \<Rightarrow> nat \<Rightarrow> point Region list \<Rightarrow> draw_op list
   \<Rightarrow> js_error + draw_op list" where
  "warpCaricature_forEach width height targetRegions i [] canvas = Inr canvas"
| "warpCaricature_forEach width height targetRegions i (sRegion # rest) canvas =
     (let tRegion = (if i < length targetRegions then Some (targetRegions ! i) else None)
      in case warpRegion width height sRegion tRegion of
           Inl err \<Rightarrow> Inl err
         | Inr None \<Rightarrow> warpCaricature_forEach width height targetRegions (i + 1) rest canvas
         | Inr (Some op) \<Rightarrow>
             warpCaricature_forEach width height targetRegions (i + 1) rest (canvas @ [op]))"

definition warpCaricature ::
  "bool \<Rightarrow> bool \<Rightarrow> real \<Rightarrow> real \<Rightarrow> point Region list \<Rightarrow> point Region list \<Rightarrow> warp_outcome" where
  "warpCaricature cvDefined ctxAvailable width height sourceRegions targetRegions =
     (if \<not> cvDefined then Input_unchanged
      else if \<not> ctxAvailable then Input_unchanged
      else case warpCaricature_forEach width height targetRegions 0 sourceRegions [] of
             Inl err \<Rightarrow> Uncaught err
           | Inr canvas \<Rightarrow> Canvas canvas)"

section \<open>logic/voronoi.ts\<close>

record bounds =
  width :: real
  height :: real

text \<open>
  \<open>generateClippedSeeds\<close>: the loop state is the generator's state, \<open>points\<close> and
  \<open>attempts\<close>; the loop returns all three, the function returns \<open>points\<close>.  The parameter
  \<open>count\<close> is a count, a \<open>nat\<close>, written \<open>cnt\<close>.
\<close>

function generateClippedSeeds_loop ::
  "nat \<Rightarrow> point list \<Rightarrow> bounds \<Rightarrow> real \<Rightarrow> nat \<Rightarrow> int \<Rightarrow> point list \<Rightarrow> nat
   \<Rightarrow> int \<times> point list \<times> nat" where
  "generateClippedSeeds_loop cnt poly bnds magnitude maxAttempts st points attempts =
     (if length points < cnt \<and> attempts < maxAttempts then
        (case rng st of (x, st1) \<Rightarrow>
         case rng st1 of (y, st2) \<Rightarrow>
           if isPointInPolygon (Pt x y) poly then
             (case rng st2 of (r3, st3) \<Rightarrow>
              case rng st3 of (r4, st4) \<Rightarrow>
                let jitterX = (r3 - 0.5) * magnitude * 0.1;
                    jitterY = (r4 - 0.5) * magnitude * 0.1
                in generateClippedSeeds_loop cnt poly bnds magnitude maxAttempts st4
                     (points @ [Pt ((x + jitterX) * width bnds) ((y + jitterY) * height bnds)])
                     (attempts + 1))
           else generateClippedSeeds_loop cnt poly bnds magnitude maxAttempts st2
                  points (attempts + 1))
      else (st, points, attempts))"
  by pat_completeness auto
termination
  by (relation "measure (\<lambda>(cnt, poly, bnds, magnitude, maxAttempts, st, points, attempts).
                           maxAttempts - attempts)") auto

declare generateClippedSeeds_loop.simps [simp del]

definition generateClippedSeeds_run ::
  "nat \<Rightarrow> point list \<Rightarrow> bounds \<Rightarrow> int \<Rightarrow> real \<Rightarrow> int \<times> point list \<times> nat" where
  "generateClippedSeeds_run cnt poly bnds seed magnitude =
     (let st = createRNG seed;
          maxAttempts = cnt * 5
      in generateClippedSeeds_loop cnt poly bnds magnitude maxAttempts st [] 0)"

definition generateClippedSeeds ::
  "nat \<Rightarrow> point list \<Rightarrow> bounds \<Rightarrow> int \<Rightarrow> real \<Rightarrow> point list" where
  "generateClippedSeeds cnt poly bnds seed magnitude =
     fst (snd (generateClippedSeeds_run cnt poly bnds seed magnitude))"

text \<open>The number of passes through the loop body that a call makes.\<close>

definition generateClippedSeeds_attempts ::
  "nat \<Rightarrow> point list \<Rightarrow> bounds \<Rightarrow> int \<Rightarrow> real \<Rightarrow> nat" where
  "generateClippedSeeds_attempts cnt poly bnds seed magnitude =
     snd (snd (generateClippedSeeds_run cnt poly bnds seed magnitude))"

text \<open>
  \<open>findNearestSeed\<close>: \<open>minDist\<close> starts at \<open>Infinity\<close>, which is \<open>None\<close> here; every
  distance is below it.
\<close>

fun findNearestSeed_loop :: "point \<Rightarrow> point list \<Rightarrow> real option \<Rightarrow> point \<Rightarrow> point" where
  "findNearestSeed_loop p [] minDist nearest = nearest"
| "findNearestSeed_loop p (s # rest) minDist nearest =
     (let dx = px p - px s;
          dy = py p - py s;
          dist = dx * dx + dy * dy
      in if (case minDist of None \<Rightarrow> True | Some m \<Rightarrow> dist < m)
         then findNearestSeed_loop p rest (Some dist) s
         else findNearestSeed_loop p rest minDist nearest)"

definition findNearestSeed :: "point \<Rightarrow> point list \<Rightarrow> point option" where
  "findNearestSeed p seeds =
     (if length seeds = 0 then None
      else Some (findNearestSeed_loop p seeds None (seeds ! 0)))"

text \<open>The squared Euclidean distance that the scan computes for each seed.\<close>

definition sqdist :: "point \<Rightarrow> point \<Rightarrow> real" where
  "sqdist p s = (px p - px s) * (px p - px s) + (py p - py s) * (py p - py s)"

section \<open>components/PreviewCanvas.tsx: seed density\<close>

text \<open>
  Both render paths take \<open>magnitude = indicator ? normalizeIndicator(indicator) : 0.5\<close>
  and then \<open>count = Math.ceil(magnitude * 10) + 2\<close> (\<open>applyTransformations\<close>, the preview) or
  \<open>count = Math.ceil(magnitude * 20) + 5\<close> (\<open>exportPNG\<close>).
\<close>

definition magnitudeOf :: "Indicator option \<Rightarrow> real" where
  "magnitudeOf indicator =
     (case indicator of Some i \<Rightarrow> normalizeIndicator i | None \<Rightarrow> 0.5)"

definition applyTransformations_count :: "real \<Rightarrow> int" where
  "applyTransformations_count magnitude = \<lceil>magnitude * 10\<rceil> + 2"

definition exportPNG_count :: "real \<Rightarrow> int" where
  "exportPNG_count magnitude = \<lceil>magnitude * 20\<rceil> + 5"

section \<open>Auxiliary notions for the proofs\<close>

text \<open>
  The ray casting seen as a walk along the vertex list, carrying the previous vertex, and
  the list of the pairs \<open>(polygon[i], polygon[j])\<close> that the loop tests.
\<close>

fun walk :: "point \<Rightarrow> point \<Rightarrow> point list \<Rightarrow> bool \<Rightarrow> bool" where
  "walk pt prev [] inside = inside"
| "walk pt prev (v # vs) inside =
     walk pt v vs (if intersect pt v prev then \<not> inside else inside)"

definition edges :: "point list \<Rightarrow> (point \<times> point) list" where
  "edges poly = zip poly (last poly # poly)"

text \<open>
  The swaps of \<open>seededShuffle_loop\<close> on the contents of the array alone, and the array
  that \<open>seededShuffle\<close> returns, read from the store it returns.
\<close>

function shuffle_values :: "'a list \<Rightarrow> int \<Rightarrow> nat \<Rightarrow> 'a list" where
  "shuffle_values arr st i =
     (if i > 0 then
        (case rng st of (r, st') \<Rightarrow>
           let j = nat \<lfloor>r * real (i + 1)\<rfloor>
           in shuffle_values (arr[i := arr ! j, j := arr ! i]) st' (i - 1))
      else arr)"
  by pat_completeness auto
termination
  by (relation "measure (\<lambda>(arr, st, i). i)") auto

declare shuffle_values.simps [simp del]

definition shuffled :: "'a arrays \<Rightarrow> nat \<Rightarrow> int \<Rightarrow> 'a list" where
  "shuffled h array seed =
     snd (seededShuffle h array seed) ! fst (seededShuffle h array seed)"

text \<open>
  The \<open>Chin\<close> polygon as a function of the magnitude: the polygon of the seventh region
  that \<open>getDynamicRegions\<close> returns when \<open>Chin\<close> alone has an indicator, one with range
  \<open>[0, 1]\<close> and current value \<open>m\<close>, so that its magnitude is \<open>m\<close> for \<open>m\<close> in that
  range.  \<open>chinX k\<close> and \<open>chinY k\<close> are the coordinates of vertex \<open>k\<close>.
\<close>

definition chinIndicator :: "real \<Rightarrow> Indicator" where
  "chinIndicator m =
     \<lparr>ind_id = ''infl'', ind_name = ''Inflation Rate'', current = m, ind_min = 0,
      ind_max = 1, ind_unit = ''%'', category = stability\<rparr>"

definition chinAt :: "real \<Rightarrow> point list" where
  "chinAt m =
     polygon (getDynamicRegions [chinIndicator m]
                (\<lambda>r. if r = Chin then Some (chinIndicator m) else None) ! 6)"

definition chinX :: "nat \<Rightarrow> real \<Rightarrow> real" where
  "chinX k m = px (chinAt m ! k)"

definition chinY :: "nat \<Rightarrow> real \<Rightarrow> real" where
  "chinY k m = py (chinAt m ! k)"

text \<open>
  The determinant that \<open>warpCaricature\<close> computes, on normalized coordinates, and
  collinearity of three points.
\<close>

definition cross3 :: "point \<Rightarrow> point \<Rightarrow> point \<Rightarrow> real" where
  "cross3 p0 p1 p2 =
     px p0 * (py p1 - py p2) - py p0 * (px p1 - px p2) + (px p1 * py p2 - px p2 * py p1)"

definition collinear3 :: "point \<Rightarrow> point \<Rightarrow> point \<Rightarrow> bool" where
  "collinear3 p0 p1 p2 \<longleftrightarrow>
     (px p1 - px p0) * (py p2 - py p0) = (px p2 - px p0) * (py p1 - py p0)"

section \<open>Normalisation\<close>

lemma normalizeIndicator_bounds: "0 \<le> normalizeIndicator i \<and> normalizeIndicator i \<le> 1"
  by (simp add: normalizeIndicator_def Let_def)

lemma magnitudeOf_bounds: "0 \<le> magnitudeOf ind \<and> magnitudeOf ind \<le> 1"
  using normalizeIndicator_bounds by (simp add: magnitudeOf_def split: option.splits)

text \<open>
  On reals the function has the three properties: its value is in \<open>[0, 1]\<close>, it is
  monotonic in \<open>current\<close> when \<open>min < max\<close>, and it is \<open>0.5\<close> when \<open>max \<le> min\<close>.
\<close>

lemma normalizeIndicator_real_range_mono_degenerate:
  "0 \<le> normalizeIndicator i \<and> normalizeIndicator i \<le> 1
   \<and> (ind_min i < ind_max i \<longrightarrow> current i \<le> c
        \<longrightarrow> normalizeIndicator i \<le> normalizeIndicator (i\<lparr>current := c\<rparr>))
   \<and> (ind_max k \<le> ind_min k \<longrightarrow> normalizeIndicator k = 0.5)"
proof -
  have mono: "normalizeIndicator i \<le> normalizeIndicator (i\<lparr>current := c\<rparr>)"
    if lt: "ind_min i < ind_max i" and le: "current i \<le> c"
  proof -
    from lt have pos: "0 < ind_max i - ind_min i" by simp
    from le have "current i - ind_min i \<le> c - ind_min i" by simp
    with pos have "(current i - ind_min i) / (ind_max i - ind_min i)
                   \<le> (c - ind_min i) / (ind_max i - ind_min i)"
      by (simp add: divide_right_mono)
    with lt show ?thesis
      by (simp add: normalizeIndicator_def Let_def)
  qed
  have deg: "normalizeIndicator k = 0.5" if "ind_max k \<le> ind_min k"
    using that by (simp add: normalizeIndicator_def)
  from normalizeIndicator_bounds [of i] mono deg show ?thesis by blast
qed

lemma overflow_threshold_gt_1: "1 < overflow_threshold"
proof -
  have "(2::real) ^ 1024 = 2 ^ 970 * 2 ^ 54"
    by (simp add: power_add [symmetric])
  then have "overflow_threshold = 2 ^ 970 * (2 ^ 54 - 1)"
    by (simp add: overflow_threshold_def algebra_simps)
  moreover have "(1::real) \<le> 2 ^ 970" by simp
  moreover have "(1::real) < 2 ^ 54 - 1" by simp
  ultimately show ?thesis
    by (metis less_le_trans mult.commute mult_le_cancel_left1 less_le_not_le mult.right_neutral
          mult_left_mono zero_le_one order_less_imp_le)
qed

lemma clamp_js:
  "Math_max (Fin 0) (Math_min (Fin 1) (Fin q)) = Fin (max 0 (min 1 q))"
  by (simp add: max_def min_def)

lemma clamp_js_PInf: "Math_max (Fin 0) (Math_min (Fin 1) PInf) = Fin 1"
  by simp

lemma clamp_js_NInf: "Math_max (Fin 0) (Math_min (Fin 1) NInf) = Fin 0"
  by simp

lemma clamp_js_round:
  "Math_max (Fin 0) (Math_min (Fin 1) (js_round q)) = Fin (max 0 (min 1 q))"
proof -
  note T = overflow_threshold_gt_1
  consider "overflow_threshold \<le> q" | "q \<le> - overflow_threshold"
    | "\<not> overflow_threshold \<le> q" "\<not> q \<le> - overflow_threshold" by blast
  then show ?thesis
  proof cases
    case 1
    with T have "1 \<le> q" by simp
    with 1 show ?thesis by (simp add: js_round_def max_def min_def)
  next
    case 2
    with T have "q < 0" by simp
    with 2 T show ?thesis by (simp add: js_round_def max_def min_def)
  next
    case 3
    then show ?thesis by (simp add: js_round_def clamp_js del: Math_max.simps Math_min.simps)
  qed
qed

text \<open>
  As long as \<open>max - min\<close> does not overflow, the function on JavaScript numbers returns
  the value of the function on reals, whatever \<open>current - min\<close> and the quotient do: an
  infinite numerator or quotient is clamped as the real one is.
\<close>

lemma normalizeIndicator_js_finite:
  assumes d: "ind_max i - ind_min i < overflow_threshold"
  shows "normalizeIndicator_js (toJs i) = Fin (normalizeIndicator i)"
proof (cases "ind_max i \<le> ind_min i")
  case True
  then show ?thesis
    by (simp add: normalizeIndicator_js_def normalizeIndicator_def toJs_def)
next
  case False
  note T = overflow_threshold_gt_1
  define dd where "dd = ind_max i - ind_min i"
  define x where "x = current i - ind_min i"
  from False have pos: "0 < dd" by (simp add: dd_def)
  with d T have den: "js_round dd = Fin dd"
    by (simp add: js_round_def dd_def)
  have real: "normalizeIndicator i = max 0 (min 1 (x / dd))"
    using False by (simp add: normalizeIndicator_def Let_def x_def dd_def)
  have js: "normalizeIndicator_js (toJs i)
            = Math_max (Fin 0) (Math_min (Fin 1) (js_div (js_round x) (Fin dd)))"
    using False den
    by (simp add: normalizeIndicator_js_def toJs_def Let_def x_def dd_def
          del: Math_max.simps Math_min.simps js_div.simps)
  consider "overflow_threshold \<le> x" | "x \<le> - overflow_threshold"
    | "\<not> overflow_threshold \<le> x" "\<not> x \<le> - overflow_threshold" by blast
  then show ?thesis
  proof cases
    case 1
    with d have "dd \<le> x" by (simp add: dd_def)
    with pos have "1 \<le> x / dd" by simp
    then have "max 0 (min 1 (x / dd)) = 1" by simp
    moreover from 1 pos have "js_div (js_round x) (Fin dd) = PInf"
      by (simp add: js_round_def)
    ultimately show ?thesis unfolding js real by simp
  next
    case 2
    with T have "x < 0" by simp
    with pos have "x / dd < 0" by (simp add: divide_neg_pos)
    then have "max 0 (min 1 (x / dd)) = 0" by simp
    moreover from 2 pos T have "js_div (js_round x) (Fin dd) = NInf"
      by (simp add: js_round_def)
    ultimately show ?thesis unfolding js real by simp
  next
    case 3
    with pos have "js_div (js_round x) (Fin dd) = js_round (x / dd)"
      by (simp add: js_round_def)
    then show ?thesis unfolding js real by (simp only: clamp_js_round)
  qed
qed

text \<open>
  So for finite fields whose range \<open>max - min\<close> does not overflow, the result is in
  \<open>[0, 1]\<close>, monotonic in \<open>current\<close> when \<open>min < max\<close>, and \<open>0.5\<close> when \<open>max \<le> min\<close>.
\<close>

lemma normalizeIndicator_js_no_overflow:
  assumes "ind_max i - ind_min i < overflow_threshold"
  shows "\<exists>r. normalizeIndicator_js (toJs i) = Fin r \<and> 0 \<le> r \<and> r \<le> 1"
    and "ind_min i < ind_max i \<Longrightarrow> current i \<le> c \<Longrightarrow>
         js_le (normalizeIndicator_js (toJs i)) (normalizeIndicator_js (toJs (i\<lparr>current := c\<rparr>)))"
    and "ind_max i \<le> ind_min i \<Longrightarrow> normalizeIndicator_js (toJs i) = Fin 0.5"
proof -
  note fin = normalizeIndicator_js_finite [OF assms]
  show "\<exists>r. normalizeIndicator_js (toJs i) = Fin r \<and> 0 \<le> r \<and> r \<le> 1"
    using fin normalizeIndicator_bounds [of i] by blast
  show "js_le (normalizeIndicator_js (toJs i)) (normalizeIndicator_js (toJs (i\<lparr>current := c\<rparr>)))"
    if "ind_min i < ind_max i" "current i \<le> c"
  proof -
    have "normalizeIndicator_js (toJs (i\<lparr>current := c\<rparr>))
          = Fin (normalizeIndicator (i\<lparr>current := c\<rparr>))"
      using assms by (intro normalizeIndicator_js_finite) simp
    with fin that normalizeIndicator_real_range_mono_degenerate [of i c i]
    show ?thesis by simp
  qed
  show "normalizeIndicator_js (toJs i) = Fin 0.5" if "ind_max i \<le> ind_min i"
    using fin that normalizeIndicator_real_range_mono_degenerate [of i 0 i] by simp
qed

text \<open>Whenever the test \<open>max <= min\<close> succeeds, on any numbers, the result is \<open>0.5\<close>.\<close>

lemma normalizeIndicator_js_degenerate:
  "js_le (ind_max k) (ind_min k) \<Longrightarrow> normalizeIndicator_js k = Fin 0.5"
  by (simp add: normalizeIndicator_js_def)

text \<open>
  C3 states that for every indicator \<open>normalizeIndicator\<close> returns a value in \<open>[0, 1]\<close>,
  monotonic non-decreasing in \<open>current\<close> when \<open>min < max\<close>, and exactly \<open>0.5\<close> when
  \<open>max \<le> min\<close>.  The code clamps with \<open>Math.max(0, Math.min(1, normalized))\<close>, which
  lets \<open>NaN\<close> through.  For the finite indicator with \<open>current = 1e308\<close>,
  \<open>min = -1e308\<close>, \<open>max = 1e308\<close> both differences overflow to \<open>Infinity\<close>, their
  quotient is \<open>NaN\<close>, and the function returns \<open>NaN\<close>: not in \<open>[0, 1]\<close>, and not above
  the \<open>0\<close> it returns for the smaller \<open>current = 0\<close> of the same range.  A \<open>NaN\<close> field
  gives \<open>NaN\<close> as well.
\<close>

theorem normalizeIndicator_js_overflow_NaN:
  "normalizeIndicator_js
     \<lparr>ind_id = ''gdp'', ind_name = ''GDP Growth Rate'', current = Fin (10 ^ 308),
      ind_min = Fin (- (10 ^ 308)), ind_max = Fin (10 ^ 308), ind_unit = ''%'',
      category = growth\<rparr> = NaN
   \<and> js_le (Fin 0) NaN = False \<and> js_le NaN (Fin 1) = False
   \<and> normalizeIndicator_js
     \<lparr>ind_id = ''gdp'', ind_name = ''GDP Growth Rate'', current = Fin 0,
      ind_min = Fin (- (10 ^ 308)), ind_max = Fin (10 ^ 308), ind_unit = ''%'',
      category = growth\<rparr> = Fin 0
   \<and> js_le (Fin 0) (Fin (10 ^ 308)) = True
   \<and> normalizeIndicator_js
     \<lparr>ind_id = ''gdp'', ind_name = ''GDP Growth Rate'', current = NaN,
      ind_min = Fin (- 5), ind_max = Fin 10, ind_unit = ''%'',
      category = growth\<rparr> = NaN"
proof -
  have big: "overflow_threshold \<le> 10 ^ 308 + 10 ^ 308"
    by (simp add: overflow_threshold_def)
  have small: "\<not> overflow_threshold \<le> 10 ^ 308" "\<not> (10 ^ 308 :: real) \<le> - overflow_threshold"
    by (simp_all add: overflow_threshold_def)
  have small5: "\<not> overflow_threshold \<le> 15"
    by (simp add: overflow_threshold_def)
  from big small small5 show ?thesis
    by (simp add: normalizeIndicator_js_def js_round_def Let_def)
qed

section \<open>Seed density\<close>

text \<open>
  C9.  The seed count of a region is \<open>ceil(magnitude * 10) + 2\<close> in the preview and
  \<open>ceil(magnitude * 20) + 5\<close> in the export; the export count is 5 at magnitude 0 and 25
  at magnitude 1; for every magnitude in \<open>[0, 1]\<close>, and so for the magnitude of every
  region, the export count is strictly greater than the preview count.
\<close>

theorem seed_counts:
  "applyTransformations_count m = \<lceil>m * 10\<rceil> + 2
   \<and> exportPNG_count m = \<lceil>m * 20\<rceil> + 5
   \<and> exportPNG_count 0 = 5
   \<and> exportPNG_count 1 = 25
   \<and> (0 \<le> m \<and> m \<le> 1 \<longrightarrow> applyTransformations_count m < exportPNG_count m)
   \<and> applyTransformations_count (magnitudeOf ind) < exportPNG_count (magnitudeOf ind)"
proof -
  have ord: "applyTransformations_count r < exportPNG_count r" if "0 \<le> r" for r
  proof -
    from that have "r * 10 \<le> r * 20" by simp
    then have "\<lceil>r * 10\<rceil> \<le> \<lceil>r * 20\<rceil>" by (rule ceiling_mono)
    then show ?thesis
      by (simp add: applyTransformations_count_def exportPNG_count_def)
  qed
  from ord magnitudeOf_bounds [of ind] show ?thesis
    by (simp add: applyTransformations_count_def exportPNG_count_def)
qed

theorem seed_counts_witness:
  "(0::real) \<le> 1 / 2 \<and> (1 / 2 :: real) \<le> 1
   \<and> applyTransformations_count (1 / 2) = 7 \<and> exportPNG_count (1 / 2) = 15
   \<and> applyTransformations_count (1 / 2) < exportPNG_count (1 / 2)"
  using seed_counts [of "1 / 2"]
  by (simp add: applyTransformations_count_def exportPNG_count_def)

section \<open>Nearest seed\<close>

lemma findNearestSeed_loop_Some:
  "(findNearestSeed_loop p ss (Some m) n = n \<and> (\<forall>s\<in>set ss. m \<le> sqdist p s))
   \<or> (\<exists>i<length ss. findNearestSeed_loop p ss (Some m) n = ss ! i
         \<and> sqdist p (ss ! i) < m
         \<and> (\<forall>j<length ss. sqdist p (ss ! i) \<le> sqdist p (ss ! j))
         \<and> (\<forall>j<i. sqdist p (ss ! i) < sqdist p (ss ! j)))"
proof (induction ss arbitrary: m n)
  case Nil
  then show ?case by simp
next
  case (Cons s rest)
  let ?d = "sqdist p s"
  show ?case
  proof (cases "?d < m")
    case True
    then have step: "findNearestSeed_loop p (s # rest) (Some m) n
                     = findNearestSeed_loop p rest (Some ?d) s"
      by (simp add: sqdist_def Let_def)
    from Cons.IH [of ?d s] show ?thesis
    proof
      assume a: "findNearestSeed_loop p rest (Some ?d) s = s \<and> (\<forall>t\<in>set rest. ?d \<le> sqdist p t)"
      have "\<forall>j<length (s # rest). sqdist p ((s # rest) ! 0) \<le> sqdist p ((s # rest) ! j)"
        using a by (auto simp: nth_Cons')
      with a True step show ?thesis
        by (intro disjI2 exI [of _ 0]) simp
    next
      assume "\<exists>i<length rest. findNearestSeed_loop p rest (Some ?d) s = rest ! i
         \<and> sqdist p (rest ! i) < ?d
         \<and> (\<forall>j<length rest. sqdist p (rest ! i) \<le> sqdist p (rest ! j))
         \<and> (\<forall>j<i. sqdist p (rest ! i) < sqdist p (rest ! j))"
      then obtain i where i: "i < length rest"
        "findNearestSeed_loop p rest (Some ?d) s = rest ! i"
        "sqdist p (rest ! i) < ?d"
        "\<forall>j<length rest. sqdist p (rest ! i) \<le> sqdist p (rest ! j)"
        "\<forall>j<i. sqdist p (rest ! i) < sqdist p (rest ! j)" by blast
      have "\<forall>j<length (s # rest). sqdist p ((s # rest) ! Suc i) \<le> sqdist p ((s # rest) ! j)"
        using i by (auto simp: nth_Cons')
      moreover have "\<forall>j<Suc i. sqdist p ((s # rest) ! Suc i) < sqdist p ((s # rest) ! j)"
        using i by (auto simp: nth_Cons' less_Suc_eq_0_disj)
      ultimately show ?thesis using i True step
        by (intro disjI2 exI [of _ "Suc i"]) simp
    qed
  next
    case False
    then have step: "findNearestSeed_loop p (s # rest) (Some m) n
                     = findNearestSeed_loop p rest (Some m) n"
      by (simp add: sqdist_def Let_def)
    from Cons.IH [of m n] show ?thesis
    proof
      assume "findNearestSeed_loop p rest (Some m) n = n \<and> (\<forall>t\<in>set rest. m \<le> sqdist p t)"
      with False step show ?thesis by auto
    next
      assume "\<exists>i<length rest. findNearestSeed_loop p rest (Some m) n = rest ! i
         \<and> sqdist p (rest ! i) < m
         \<and> (\<forall>j<length rest. sqdist p (rest ! i) \<le> sqdist p (rest ! j))
         \<and> (\<forall>j<i. sqdist p (rest ! i) < sqdist p (rest ! j))"
      then obtain i where i: "i < length rest"
        "findNearestSeed_loop p rest (Some m) n = rest ! i"
        "sqdist p (rest ! i) < m"
        "\<forall>j<length rest. sqdist p (rest ! i) \<le> sqdist p (rest ! j)"
        "\<forall>j<i. sqdist p (rest ! i) < sqdist p (rest ! j)" by blast
      have "\<forall>j<length (s # rest). sqdist p ((s # rest) ! Suc i) \<le> sqdist p ((s # rest) ! j)"
        using i False by (auto simp: nth_Cons')
      moreover have "\<forall>j<Suc i. sqdist p ((s # rest) ! Suc i) < sqdist p ((s # rest) ! j)"
        using i False by (auto simp: nth_Cons' less_Suc_eq_0_disj)
      ultimately show ?thesis using i step
        by (intro disjI2 exI [of _ "Suc i"]) simp
    qed
  qed
qed

lemma findNearestSeed_Cons:
  "\<exists>i<length (s # rest). findNearestSeed p (s # rest) = Some ((s # rest) ! i)
      \<and> (\<forall>j<length (s # rest). sqdist p ((s # rest) ! i) \<le> sqdist p ((s # rest) ! j))
      \<and> (\<forall>j<i. sqdist p ((s # rest) ! i) < sqdist p ((s # rest) ! j))"
proof -
  let ?d = "sqdist p s"
  have top: "findNearestSeed p (s # rest) = Some (findNearestSeed_loop p rest (Some ?d) s)"
    by (simp add: findNearestSeed_def sqdist_def Let_def)
  from findNearestSeed_loop_Some [of p rest ?d s] show ?thesis
  proof
    assume a: "findNearestSeed_loop p rest (Some ?d) s = s \<and> (\<forall>t\<in>set rest. ?d \<le> sqdist p t)"
    have "\<forall>j<length (s # rest). sqdist p ((s # rest) ! 0) \<le> sqdist p ((s # rest) ! j)"
      using a by (auto simp: nth_Cons')
    with a top show ?thesis
      by (intro exI [of _ 0]) simp
  next
    assume "\<exists>i<length rest. findNearestSeed_loop p rest (Some ?d) s = rest ! i
         \<and> sqdist p (rest ! i) < ?d
         \<and> (\<forall>j<length rest. sqdist p (rest ! i) \<le> sqdist p (rest ! j))
         \<and> (\<forall>j<i. sqdist p (rest ! i) < sqdist p (rest ! j))"
    then obtain i where i: "i < length rest"
        "findNearestSeed_loop p rest (Some ?d) s = rest ! i"
        "sqdist p (rest ! i) < ?d"
        "\<forall>j<length rest. sqdist p (rest ! i) \<le> sqdist p (rest ! j)"
        "\<forall>j<i. sqdist p (rest ! i) < sqdist p (rest ! j)" by blast
    have "\<forall>j<length (s # rest). sqdist p ((s # rest) ! Suc i) \<le> sqdist p ((s # rest) ! j)"
      using i by (auto simp: nth_Cons')
    moreover have "\<forall>j<Suc i. sqdist p ((s # rest) ! Suc i) < sqdist p ((s # rest) ! j)"
      using i by (auto simp: nth_Cons' less_Suc_eq_0_disj)
    ultimately show ?thesis using i top
      by (intro exI [of _ "Suc i"]) simp
  qed
qed

text \<open>
  C8.  \<open>findNearestSeed\<close> returns \<open>null\<close> exactly when the seed list is empty; for a
  single-seed list it returns that seed; for every non-empty list it returns the seed at
  some index \<open>i\<close> whose squared Euclidean distance from the query point is minimal over
  the list, and every seed before \<open>i\<close> is strictly farther: ties go to the first.
\<close>

theorem findNearestSeed_nearest_first:
  "(findNearestSeed p seeds = None \<longleftrightarrow> seeds = [])
   \<and> findNearestSeed p [s] = Some s
   \<and> (seeds \<noteq> [] \<longrightarrow>
        (\<exists>i<length seeds. findNearestSeed p seeds = Some (seeds ! i)
           \<and> (\<forall>j<length seeds. sqdist p (seeds ! i) \<le> sqdist p (seeds ! j))
           \<and> (\<forall>j<i. sqdist p (seeds ! i) < sqdist p (seeds ! j))))"
proof (intro conjI impI)
  show "findNearestSeed p seeds = None \<longleftrightarrow> seeds = []"
    by (simp add: findNearestSeed_def)
  show "findNearestSeed p [s] = Some s"
    by (simp add: findNearestSeed_def Let_def)
next
  assume "seeds \<noteq> []"
  then obtain t rest where "seeds = t # rest" by (cases seeds) auto
  then show "\<exists>i<length seeds. findNearestSeed p seeds = Some (seeds ! i)
           \<and> (\<forall>j<length seeds. sqdist p (seeds ! i) \<le> sqdist p (seeds ! j))
           \<and> (\<forall>j<i. sqdist p (seeds ! i) < sqdist p (seeds ! j))"
    using findNearestSeed_Cons [of t rest p] by simp
qed

theorem findNearestSeed_nearest_first_witness:
  "[Pt 3 4, Pt 1 1, Pt (-1) 1, Pt 5 5] \<noteq> []
   \<and> findNearestSeed (Pt 0 0) [Pt 3 4, Pt 1 1, Pt (-1) 1, Pt 5 5] = Some (Pt 1 1)
   \<and> (\<exists>i<length [Pt 3 4, Pt 1 1, Pt (-1) 1, Pt 5 5].
         findNearestSeed (Pt 0 0) [Pt 3 4, Pt 1 1, Pt (-1) 1, Pt 5 5]
           = Some ([Pt 3 4, Pt 1 1, Pt (-1) 1, Pt 5 5] ! i)
         \<and> (\<forall>j<length [Pt 3 4, Pt 1 1, Pt (-1) 1, Pt 5 5].
               sqdist (Pt 0 0) ([Pt 3 4, Pt 1 1, Pt (-1) 1, Pt 5 5] ! i)
               \<le> sqdist (Pt 0 0) ([Pt 3 4, Pt 1 1, Pt (-1) 1, Pt 5 5] ! j))
         \<and> (\<forall>j<i. sqdist (Pt 0 0) ([Pt 3 4, Pt 1 1, Pt (-1) 1, Pt 5 5] ! i)
               < sqdist (Pt 0 0) ([Pt 3 4, Pt 1 1, Pt (-1) 1, Pt 5 5] ! j)))"
proof -
  have ne: "[Pt 3 4, Pt 1 1, Pt (-1) 1, Pt 5 5] \<noteq> []" by simp
  have v: "findNearestSeed (Pt 0 0) [Pt 3 4, Pt 1 1, Pt (-1) 1, Pt 5 5] = Some (Pt 1 1)"
    by (simp add: findNearestSeed_def Let_def)
  from findNearestSeed_nearest_first [of "Pt 0 0" "[Pt 3 4, Pt 1 1, Pt (-1) 1, Pt 5 5]" "Pt 3 4"]
    ne v show ?thesis by blast
qed

section \<open>Point in polygon\<close>

lemma loop_walk:
  "i \<le> length poly \<Longrightarrow>
   isPointInPolygon_loop pt poly i j inside = walk pt (poly ! j) (drop i poly) inside"
proof (induction pt poly i j inside rule: isPointInPolygon_loop.induct)
  case (1 pt poly i j inside)
  show ?case
  proof (cases "i < length poly")
    case True
    then have d: "drop i poly = poly ! i # drop (Suc i) poly"
      by (simp add: Cons_nth_drop_Suc)
    from True have "isPointInPolygon_loop pt poly i j inside
        = isPointInPolygon_loop pt poly (i + 1) i
            (if intersect pt (poly ! i) (poly ! j) then \<not> inside else inside)"
      by (subst isPointInPolygon_loop.simps) simp
    also have "\<dots> = walk pt (poly ! i) (drop (i + 1) poly)
            (if intersect pt (poly ! i) (poly ! j) then \<not> inside else inside)"
      using True by (intro "1.IH") simp_all
    finally show ?thesis using d by simp
  next
    case False
    with "1.prems" have "i = length poly" by simp
    then show ?thesis by (subst isPointInPolygon_loop.simps) simp
  qed
qed

lemma walk_parity:
  "walk pt prev vs inside
   = (inside \<noteq> odd (length (filter (\<lambda>(a, b). intersect pt a b) (zip vs (prev # vs)))))"
  by (induction vs arbitrary: prev inside) auto

lemma isPointInPolygon_parity:
  "isPointInPolygon pt poly
   = odd (length (filter (\<lambda>(a, b). intersect pt a b) (edges poly)))"
proof (cases "poly = []")
  case True
  then show ?thesis
    by (simp add: isPointInPolygon_def edges_def isPointInPolygon_loop.simps)
next
  case False
  then have "poly ! (length poly - 1) = last poly"
    by (simp add: last_conv_nth)
  then show ?thesis
    by (simp add: isPointInPolygon_def loop_walk walk_parity edges_def)
qed

lemma zip_longer_right: "length xs \<le> length ys \<Longrightarrow> zip xs (ys @ zs) = zip xs ys"
  by (induction xs ys rule: list_induct2') auto

lemma edges_rotate1: "edges (rotate1 poly) = rotate1 (edges poly)"
proof (cases poly)
  case Nil
  then show ?thesis by (simp add: edges_def)
next
  case (Cons v vs)
  define l where "l = last (v # vs)"
  define b where "b = butlast (v # vs)"
  have split: "v # vs = b @ [l]" and len: "length b = length vs"
    unfolding l_def b_def by simp_all
  have "edges (rotate1 poly) = zip (vs @ [v]) ((v # vs) @ [v])"
    using Cons by (simp add: edges_def)
  also have "\<dots> = zip (vs @ [v]) (v # vs)"
    by (rule zip_longer_right) simp
  also have "\<dots> = zip (vs @ [v]) (b @ [l])"
    by (simp only: split)
  also have "\<dots> = zip vs b @ [(v, l)]"
    using len by (subst zip_append) simp_all
  also have "zip vs b = zip vs (b @ [l])"
    using len by (simp add: zip_longer_right)
  also have "zip vs (b @ [l]) = zip vs (v # vs)"
    by (simp only: split)
  finally have lhs: "edges (rotate1 poly) = zip vs (v # vs) @ [(v, l)]" .
  have "edges poly = (v, l) # zip vs (v # vs)"
    using Cons unfolding edges_def l_def by simp
  with lhs show ?thesis by simp
qed

lemma length_filter_rotate1: "length (filter P (rotate1 xs)) = length (filter P xs)"
  by (cases xs) auto

lemma isPointInPolygon_rotate1:
  "isPointInPolygon pt (rotate1 poly) = isPointInPolygon pt poly"
  by (simp add: isPointInPolygon_parity edges_rotate1 length_filter_rotate1)

text \<open>
  C5.  For every point and every polygon, \<open>isPointInPolygon\<close> returns the same result
  on the polygon and on every cyclic rotation of its vertex list.
\<close>

theorem isPointInPolygon_rotate:
  "isPointInPolygon pt (rotate n poly) = isPointInPolygon pt poly"
  by (induction n) (simp_all add: isPointInPolygon_rotate1)

section \<open>Region lookup\<close>

lemma getRegionAt_loop_mem:
  "getRegionAt_loop pt rs \<in> rid ` set rs \<union> {Background}"
  by (induction rs) auto

lemma getRegionAt_mem:
  "getRegionAt x y n dyn
     \<in> rid ` set (case dyn of Some rs \<Rightarrow> rs | None \<Rightarrow> getUnlockedRegions n) \<union> {Background}"
  using getRegionAt_loop_mem
    [of "Pt x y" "sort_key (\<lambda>r. - priority r)
                    (case dyn of Some rs \<Rightarrow> rs | None \<Rightarrow> getUnlockedRegions n)"]
  by (simp add: getRegionAt_def Let_def)

lemma getUnlockedRegions_primary:
  "n \<le> 3 \<Longrightarrow> set (getUnlockedRegions n) = {r \<in> set FACE_REGIONS. tier r = primary}"
  by (auto simp: getUnlockedRegions_def)

lemma primary_ids:
  "rid ` {r \<in> set FACE_REGIONS. tier r = primary} = {Forehead, Eyes, Nose, Mouth, Background}"
proof -
  have "rid ` {r \<in> set FACE_REGIONS. tier r = primary}
        = set (map rid (filter (\<lambda>r. tier r = primary) FACE_REGIONS))"
    by simp
  also have "map rid (filter (\<lambda>r. tier r = primary) FACE_REGIONS)
        = [Forehead, Eyes, Nose, Mouth, Background]"
    by (simp add: FACE_REGIONS_def)
  finally show ?thesis by simp
qed

text \<open>
  C6, as the code has it.  \<open>getRegionAt\<close> never returns an id outside the candidate set
  (the supplied dynamic regions, or else the unlocked regions for the count) plus
  \<open>Background\<close>.  When no dynamic regions are supplied and the count is at most 3, only
  ids of primary-tier regions (\<open>Forehead\<close>, \<open>Eyes\<close>, \<open>Nose\<close>, \<open>Mouth\<close>, \<open>Background\<close>)
  are returned.  When dynamic regions are supplied the count is not consulted.
\<close>

theorem getRegionAt_candidates:
  "getRegionAt x y n dyn
     \<in> rid ` set (case dyn of Some rs \<Rightarrow> rs | None \<Rightarrow> getUnlockedRegions n) \<union> {Background}
   \<and> getRegionAt x y n (Some rs) = getRegionAt x y n' (Some rs)
   \<and> (n \<le> 3 \<longrightarrow>
        getRegionAt x y n None \<in> rid ` {r \<in> set FACE_REGIONS. tier r = primary} \<union> {Background}
        \<and> getRegionAt x y n None \<in> {Forehead, Eyes, Nose, Mouth, Background})"
proof (intro conjI impI)
  show "getRegionAt x y n dyn
     \<in> rid ` set (case dyn of Some rs \<Rightarrow> rs | None \<Rightarrow> getUnlockedRegions n) \<union> {Background}"
    by (rule getRegionAt_mem)
  show "getRegionAt x y n (Some rs) = getRegionAt x y n' (Some rs)"
    by (simp add: getRegionAt_def)
next
  assume n: "n \<le> 3"
  from getRegionAt_mem [of x y n None] n
  show p: "getRegionAt x y n None
            \<in> rid ` {r \<in> set FACE_REGIONS. tier r = primary} \<union> {Background}"
    by (simp add: getUnlockedRegions_primary)
  then show "getRegionAt x y n None \<in> {Forehead, Eyes, Nose, Mouth, Background}"
    unfolding primary_ids by blast
qed

theorem getRegionAt_candidates_witness:
  "(2::int) \<le> 3
   \<and> getRegionAt 0.5 0.3 2 None = Nose
   \<and> getRegionAt 0.5 0.3 2 None \<in> {Forehead, Eyes, Nose, Mouth, Background}"
proof -
  have "getRegionAt 0.5 0.3 2 None = Nose"
    by (simp add: getRegionAt_def getUnlockedRegions_def FACE_REGIONS_def Let_def
          isPointInPolygon_def isPointInPolygon_loop.simps intersect_def)
  with getRegionAt_candidates [of "0.5" "0.3" 2 None] show ?thesis by simp
qed

text \<open>
  C6, as stated, fails when dynamic regions are supplied: with the whole catalogue as the
  dynamic regions (what \<open>getDynamicRegions\<close> returns when no region has an indicator) and
  an indicator count of 3, the point \<open>(0.5, 0.9)\<close> resolves to \<open>Neck\<close>, an auxiliary-tier
  region that is not unlocked for that count.
\<close>

theorem getRegionAt_count_three_counterexample:
  "getRegionAt 0.5 0.9 3 (Some FACE_REGIONS) = Neck
   \<and> rid (FACE_REGIONS ! 8) = Neck \<and> tier (FACE_REGIONS ! 8) = auxiliary
   \<and> Neck \<notin> rid ` set (getUnlockedRegions 3) \<union> {Background}"
proof -
  have "getRegionAt 0.5 0.9 3 (Some FACE_REGIONS) = Neck"
    by (simp add: getRegionAt_def FACE_REGIONS_def Let_def isPointInPolygon_def
          isPointInPolygon_loop.simps intersect_def)
  moreover have "Neck \<notin> rid ` set (getUnlockedRegions 3) \<union> {Background}"
    by (simp add: getUnlockedRegions_def FACE_REGIONS_def)
  ultimately show ?thesis by (simp add: FACE_REGIONS_def)
qed

section \<open>Seeded shuffle\<close>

lemma rng_range: "0 \<le> fst (rng s) \<and> fst (rng s) < 1"
proof -
  have "\<exists>w :: 32 word. fst (rng s) = real (unat w) / 4294967296"
    by (simp only: rng_def Let_def fst_conv) blast
  then obtain w :: "32 word" where w: "fst (rng s) = real (unat w) / 4294967296" ..
  have "unat w < 4294967296"
    using unsigned_less [of w, where 'a = nat] by simp
  then have "real (unat w) < real (4294967296 :: nat)"
    by (simp only: of_nat_less_iff)
  then have "real (unat w) < 4294967296"
    by (simp del: of_nat_unat)
  moreover have "0 \<le> real (unat w)"
    by (rule of_nat_0_le_iff)
  ultimately show ?thesis
    unfolding w by (simp del: of_nat_unat)
qed

lemma floor_index:
  assumes "0 \<le> r" "r < 1"
  shows "nat \<lfloor>r * real (i + 1)\<rfloor> \<le> i"
proof -
  have "r * real (i + 1) < real (i + 1)"
    using assms by simp
  then have "\<lfloor>r * real (i + 1)\<rfloor> < int (i + 1)"
    by (simp add: floor_less_iff)
  then show ?thesis by simp
qed

lemma rng_index: "rng st = (r, st') \<Longrightarrow> nat \<lfloor>r * real (i + 1)\<rfloor> \<le> i"
  using rng_range [of st] floor_index [of r i] by simp

text \<open>The generator's first ten outputs from seed 42.\<close>

lemma rng_step_1: "rng 42 = (2581720956 / 4294967296, 1831565855)"
  by (simp add: rng_def Let_def)

lemma rng_step_2: "rng 1831565855 = (1925393290 / 4294967296, 3663131668)"
  by (simp add: rng_def Let_def)

lemma rng_step_3: "rng 3663131668 = (3661312704 / 4294967296, 5494697481)"
  by (simp add: rng_def Let_def)

lemma rng_step_4: "rng 5494697481 = (2876485805 / 4294967296, 7326263294)"
  by (simp add: rng_def Let_def)

lemma rng_step_5: "rng 7326263294 = (750819978 / 4294967296, 9157829107)"
  by (simp add: rng_def Let_def)

lemma rng_step_6: "rng 9157829107 = (2261697747 / 4294967296, 10989394920)"
  by (simp add: rng_def Let_def)

lemma rng_step_7: "rng 10989394920 = (1173505300 / 4294967296, 12820960733)"
  by (simp add: rng_def Let_def)

lemma rng_step_8: "rng 12820960733 = (2683257857 / 4294967296, 14652526546)"
  by (simp add: rng_def Let_def)

lemma rng_step_9: "rng 14652526546 = (3717185310 / 4294967296, 16484092359)"
  by (simp add: rng_def Let_def)

lemma rng_step_10: "rng 16484092359 = (2028586305 / 4294967296, 18315658172)"
  by (simp add: rng_def Let_def)

lemma shuffle_values_mset:
  "i < length arr \<or> i = 0 \<Longrightarrow> mset (shuffle_values arr st i) = mset arr"
proof (induction arr st i rule: shuffle_values.induct)
  case (1 arr st i)
  show ?case
  proof (cases "i > 0")
    case False
    then show ?thesis by (subst shuffle_values.simps) simp
  next
    case True
    obtain r st' where r: "rng st = (r, st')" by (cases "rng st")
    define j where "j = nat \<lfloor>r * real (i + 1)\<rfloor>"
    have ji: "j \<le> i" unfolding j_def using r by (rule rng_index)
    from True "1.prems" have il: "i < length arr" by simp
    have step: "shuffle_values arr st i
          = shuffle_values (arr[i := arr ! j, j := arr ! i]) st' (i - 1)"
      using True r by (subst shuffle_values.simps) (simp add: j_def Let_def)
    have "mset (shuffle_values (arr[i := arr ! j, j := arr ! i]) st' (i - 1))
          = mset (arr[i := arr ! j, j := arr ! i])"
      unfolding j_def using il by (intro "1.IH" [OF True r [symmetric] refl]) auto
    also have "\<dots> = mset arr"
      using il ji by (simp add: mset_swap)
    finally show ?thesis using step by simp
  qed
qed

lemma seededShuffle_loop_frame:
  "result < length h \<Longrightarrow>
   length (seededShuffle_loop h result st i) = length h
   \<and> (\<forall>a. a \<noteq> result \<longrightarrow> seededShuffle_loop h result st i ! a = h ! a)
   \<and> seededShuffle_loop h result st i ! result = shuffle_values (h ! result) st i"
proof (induction h result st i rule: seededShuffle_loop.induct)
  case (1 h result st i)
  show ?case
  proof (cases "i > 0")
    case False
    then show ?thesis
      by (subst (1 2 3) seededShuffle_loop.simps, subst shuffle_values.simps) simp
  next
    case True
    obtain r st' where r: "rng st = (r, st')" by (cases "rng st")
    define j where "j = nat \<lfloor>r * real (i + 1)\<rfloor>"
    define arr where "arr = h ! result"
    define h' where "h' = h[result := arr[i := arr ! j, j := arr ! i]]"
    have step: "seededShuffle_loop h result st i = seededShuffle_loop h' result st' (i - 1)"
      using True r
      by (subst seededShuffle_loop.simps) (simp add: j_def arr_def h'_def Let_def)
    have step2: "shuffle_values arr st i
          = shuffle_values (arr[i := arr ! j, j := arr ! i]) st' (i - 1)"
      using True r by (subst shuffle_values.simps) (simp add: j_def Let_def)
    have len: "result < length h'" using "1.prems" by (simp add: h'_def)
    have IH: "length (seededShuffle_loop h' result st' (i - 1)) = length h'
      \<and> (\<forall>a. a \<noteq> result \<longrightarrow> seededShuffle_loop h' result st' (i - 1) ! a = h' ! a)
      \<and> seededShuffle_loop h' result st' (i - 1) ! result
          = shuffle_values (h' ! result) st' (i - 1)"
      unfolding h'_def arr_def j_def
      using "1.prems" by (intro "1.IH" [OF True r [symmetric] refl refl]) simp
    have "h' ! result = arr[i := arr ! j, j := arr ! i]"
      using "1.prems" by (simp add: h'_def)
    with IH step step2 show ?thesis
      by (simp add: h'_def arr_def [symmetric])
  qed
qed

lemma seededShuffle_store:
  assumes "array < length h"
  shows "fst (seededShuffle h array seed) = length h"
    and "take (length h) (snd (seededShuffle h array seed)) = h"
    and "shuffled h array seed
           = shuffle_values (h ! array) (createRNG seed) (length (h ! array) - 1)"
proof -
  define h1 where "h1 = h @ [h ! array]"
  define out where
    "out = seededShuffle_loop h1 (length h) (createRNG seed) (length (h ! array) - 1)"
  have s: "seededShuffle h array seed = (length h, out)"
    by (simp add: seededShuffle_def Let_def out_def h1_def)
  have fr: "length out = length h1"
     "\<forall>a. a \<noteq> length h \<longrightarrow> out ! a = h1 ! a"
     "out ! length h = shuffle_values (h1 ! length h) (createRNG seed) (length (h ! array) - 1)"
    unfolding out_def
    using seededShuffle_loop_frame [of "length h" h1 "createRNG seed" "length (h ! array) - 1"]
    by (simp_all add: h1_def)
  have h1l: "h1 ! length h = h ! array" by (simp add: h1_def)
  show "shuffled h array seed
           = shuffle_values (h ! array) (createRNG seed) (length (h ! array) - 1)"
    using s fr h1l by (simp add: shuffled_def)
  show "take (length h) (snd (seededShuffle h array seed)) = h"
  proof (rule nth_equalityI)
    show "length (take (length h) (snd (seededShuffle h array seed))) = length h"
      using s fr by (simp add: h1_def)
    fix a assume "a < length (take (length h) (snd (seededShuffle h array seed)))"
    then have "a < length h" by simp
    then show "take (length h) (snd (seededShuffle h array seed)) ! a = h ! a"
      using s fr by (simp add: h1_def nth_append)
  qed
  show "fst (seededShuffle h array seed) = length h" using s by simp
qed

text \<open>
  C4.  For every array in the store and every seed, \<open>seededShuffle\<close> returns a new array
  (at a fresh address) whose contents are a permutation of the input's; every array that
  was in the store before the call, the input among them, is unchanged after it; and the
  contents of the result depend only on the contents of the input and the seed: two calls
  on equal lists with the same seed, in any two stores, return equal lists.
\<close>

theorem seededShuffle_permutation:
  assumes "array < length h" and "array2 < length h2" and "h2 ! array2 = h ! array"
  shows "mset (shuffled h array seed) = mset (h ! array)
       \<and> fst (seededShuffle h array seed) = length h
       \<and> take (length h) (snd (seededShuffle h array seed)) = h
       \<and> snd (seededShuffle h array seed) ! array = h ! array
       \<and> shuffled h2 array2 seed = shuffled h array seed"
proof -
  have "length (h ! array) - 1 < length (h ! array) \<or> length (h ! array) - 1 = 0"
    by (cases "h ! array") auto
  then have perm: "mset (shuffled h array seed) = mset (h ! array)"
    using seededShuffle_store(3) [OF assms(1)] by (simp add: shuffle_values_mset)
  have keep: "snd (seededShuffle h array seed) ! array = h ! array"
  proof -
    have "take (length h) (snd (seededShuffle h array seed)) ! array = h ! array"
      using seededShuffle_store(2) [OF assms(1)] by simp
    with assms(1) show ?thesis by simp
  qed
  have det: "shuffled h2 array2 seed = shuffled h array seed"
    using seededShuffle_store(3) [OF assms(1)] seededShuffle_store(3) [OF assms(2)] assms(3)
    by simp
  from perm keep det seededShuffle_store(1,2) [OF assms(1)] show ?thesis by simp
qed

theorem seededShuffle_permutation_witness:
  "(0::nat) < length [[1, 2, 3, 4, 5 :: nat]]
   \<and> (1::nat) < length [[9], [1, 2, 3, 4, 5 :: nat]]
   \<and> [[9], [1, 2, 3, 4, 5 :: nat]] ! 1 = [[1, 2, 3, 4, 5]] ! 0
   \<and> shuffled [[1, 2, 3, 4, 5 :: nat]] 0 42 = [1, 5, 3, 2, 4]
   \<and> mset (shuffled [[1, 2, 3, 4, 5 :: nat]] 0 42) = mset [1, 2, 3, 4, 5]
   \<and> fst (seededShuffle [[1, 2, 3, 4, 5 :: nat]] 0 42) = 1
   \<and> snd (seededShuffle [[1, 2, 3, 4, 5 :: nat]] 0 42) ! 0 = [1, 2, 3, 4, 5]
   \<and> shuffled [[9], [1, 2, 3, 4, 5 :: nat]] 1 42 = shuffled [[1, 2, 3, 4, 5]] 0 42"
proof -
  have v: "shuffled [[1, 2, 3, 4, 5 :: nat]] 0 42 = [1, 5, 3, 2, 4]"
    by (simp add: shuffled_def seededShuffle_def Let_def createRNG_def
          seededShuffle_loop.simps rng_step_1 rng_step_2 rng_step_3 rng_step_4)
  from seededShuffle_permutation
    [of 0 "[[1, 2, 3, 4, 5 :: nat]]" 1 "[[9], [1, 2, 3, 4, 5]]" 42] v
  show ?thesis by simp
qed

section \<open>Clipped seeds\<close>

lemma generateClippedSeeds_loop_bounds:
  "length points \<le> cnt \<Longrightarrow> attempts \<le> maxAttempts \<Longrightarrow>
   generateClippedSeeds_loop cnt poly bnds magnitude maxAttempts st points attempts
     = (st', points', attempts') \<Longrightarrow>
   length points' \<le> cnt \<and> attempts' \<le> maxAttempts
   \<and> ((\<forall>p. \<not> isPointInPolygon p poly) \<longrightarrow> points' = points)"
proof (induction cnt poly bnds magnitude maxAttempts st points attempts
        rule: generateClippedSeeds_loop.induct)
  case (1 cnt poly bnds magnitude maxAttempts st points attempts)
  show ?case
  proof (cases "length points < cnt \<and> attempts < maxAttempts")
    case False
    with "1.prems" show ?thesis
      by (subst (asm) generateClippedSeeds_loop.simps) auto
  next
    case True
    obtain x st1 where r1: "rng st = (x, st1)" by (cases "rng st")
    obtain y st2 where r2: "rng st1 = (y, st2)" by (cases "rng st1")
    show ?thesis
    proof (cases "isPointInPolygon (Pt x y) poly")
      case False
      have "generateClippedSeeds_loop cnt poly bnds magnitude maxAttempts st points attempts
            = generateClippedSeeds_loop cnt poly bnds magnitude maxAttempts st2 points
                (attempts + 1)"
        using True r1 r2 False by (subst generateClippedSeeds_loop.simps) simp
      with "1.prems"(3) have run:
        "generateClippedSeeds_loop cnt poly bnds magnitude maxAttempts st2 points (attempts + 1)
           = (st', points', attempts')" by simp
      from True "1.prems"(1) show ?thesis
        by (intro "1.IH"(2) [OF True r1 [symmetric] r2 [symmetric] False _ _ run]) simp_all
    next
      case inside: True
      obtain r3 st3 where r3: "rng st2 = (r3, st3)" by (cases "rng st2")
      obtain r4 st4 where r4: "rng st3 = (r4, st4)" by (cases "rng st3")
      define jitterX where "jitterX = (r3 - 5 / 10) * magnitude * (1 / 10)"
      define jitterY where "jitterY = (r4 - 5 / 10) * magnitude * (1 / 10)"
      define points2 where
        "points2 = points @ [Pt ((x + jitterX) * width bnds) ((y + jitterY) * height bnds)]"
      have "generateClippedSeeds_loop cnt poly bnds magnitude maxAttempts st points attempts
            = generateClippedSeeds_loop cnt poly bnds magnitude maxAttempts st4 points2
                (attempts + 1)"
        using True r1 r2 inside r3 r4
        by (subst generateClippedSeeds_loop.simps)
           (simp add: Let_def points2_def jitterX_def jitterY_def)
      with "1.prems"(3) have run:
        "generateClippedSeeds_loop cnt poly bnds magnitude maxAttempts st4 points2 (attempts + 1)
           = (st', points', attempts')" by simp
      have "length points' \<le> cnt \<and> attempts' \<le> maxAttempts
            \<and> ((\<forall>p. \<not> isPointInPolygon p poly) \<longrightarrow> points' = points2)"
        using True
        by (intro "1.IH"(1) [OF True r1 [symmetric] r2 [symmetric] inside r3 [symmetric]
              r4 [symmetric] jitterX_def jitterY_def _ _ run [unfolded points2_def]
              , folded points2_def])
           (simp_all add: points2_def)
      with inside show ?thesis by blast
    qed
  qed
qed

text \<open>
  C7.  For every count, polygon, bounds, seed and magnitude, \<open>generateClippedSeeds\<close>
  returns (the loop's measure \<open>maxAttempts - attempts\<close> decreases at every pass), after
  at most \<open>count * 5\<close> passes, with at most \<open>count\<close> points.  When the polygon rejects
  every candidate the result is empty, and so shorter than any positive count.
\<close>

theorem generateClippedSeeds_bounded:
  "length (generateClippedSeeds cnt poly bnds seed magnitude) \<le> cnt
   \<and> generateClippedSeeds_attempts cnt poly bnds seed magnitude \<le> cnt * 5
   \<and> ((\<forall>p. \<not> isPointInPolygon p poly) \<longrightarrow>
          generateClippedSeeds cnt poly bnds seed magnitude = [])
   \<and> ((\<forall>p. \<not> isPointInPolygon p poly) \<longrightarrow> 0 < cnt \<longrightarrow>
          length (generateClippedSeeds cnt poly bnds seed magnitude) < cnt)"
proof -
  obtain st' points' attempts' where run:
    "generateClippedSeeds_loop cnt poly bnds magnitude (cnt * 5) (createRNG seed) [] 0
       = (st', points', attempts')"
    by (cases "generateClippedSeeds_loop cnt poly bnds magnitude (cnt * 5) (createRNG seed) [] 0")
  have "length points' \<le> cnt \<and> attempts' \<le> cnt * 5
        \<and> ((\<forall>p. \<not> isPointInPolygon p poly) \<longrightarrow> points' = [])"
    by (rule generateClippedSeeds_loop_bounds [OF _ _ run]) simp_all
  with run show ?thesis
    by (auto simp: generateClippedSeeds_def generateClippedSeeds_attempts_def
          generateClippedSeeds_run_def Let_def)
qed

lemma isPointInPolygon_Nil: "\<not> isPointInPolygon p []"
  by (simp add: isPointInPolygon_def isPointInPolygon_loop.simps)

text \<open>
  The run from seed 42 on the \<open>Chin\<close> triangle with \<open>count = 1\<close>: all five candidates
  fall outside, so the result is empty.
\<close>


lemma generateClippedSeeds_chin_run:
  "generateClippedSeeds_run 1 [Pt 0.3 0.75, Pt 0.7 0.75, Pt 0.5 0.9]
     \<lparr>width = 512, height = 512\<rparr> 42 0.5 = (18315658172, [], 5)"
  by (simp add: generateClippedSeeds_run_def createRNG_def Let_def
        generateClippedSeeds_loop.simps isPointInPolygon_def isPointInPolygon_loop.simps
        intersect_def rng_step_1 rng_step_2 rng_step_3 rng_step_4 rng_step_5 rng_step_6 rng_step_7 rng_step_8 rng_step_9 rng_step_10)

theorem generateClippedSeeds_bounded_witness:
  "(\<forall>p. \<not> isPointInPolygon p []) \<and> (0::nat) < 3
   \<and> generateClippedSeeds 3 [] \<lparr>width = 512, height = 512\<rparr> 42 0.5 = []
   \<and> length (generateClippedSeeds 3 [] \<lparr>width = 512, height = 512\<rparr> 42 0.5) < 3
   \<and> generateClippedSeeds 1 [Pt 0.3 0.75, Pt 0.7 0.75, Pt 0.5 0.9]
         \<lparr>width = 512, height = 512\<rparr> 42 0.5 = []
   \<and> generateClippedSeeds_attempts 1 [Pt 0.3 0.75, Pt 0.7 0.75, Pt 0.5 0.9]
         \<lparr>width = 512, height = 512\<rparr> 42 0.5 = 5"
  using generateClippedSeeds_bounded [of 3 "[]" "\<lparr>width = 512, height = 512\<rparr>" 42 "0.5"]
    isPointInPolygon_Nil generateClippedSeeds_chin_run
  by (simp add: generateClippedSeeds_def generateClippedSeeds_attempts_def)

section \<open>Dynamic regions\<close>

lemma forEach_length: "length (forEach f refs st) = length st"
  unfolding forEach_def by (induction refs arbitrary: st) simp_all

lemma forEach_other: "a \<notin> set refs \<Longrightarrow> forEach f refs st ! a = st ! a"
  unfolding forEach_def by (induction refs arbitrary: st) auto

lemma forEach_deref:
  "distinct refs \<Longrightarrow> \<forall>a\<in>set refs. a < length st \<Longrightarrow>
   deref (forEach f refs st) refs = map f (deref st refs)"
proof (induction refs arbitrary: st)
  case Nil
  then show ?case by (simp add: deref_def forEach_def)
next
  case (Cons a refs)
  let ?st1 = "st[a := f (st ! a)]"
  have fe: "forEach f (a # refs) st = forEach f refs ?st1"
    by (simp add: forEach_def)
  from Cons.prems have a: "a \<notin> set refs" "a < length st" by simp_all
  have hd: "forEach f refs ?st1 ! a = f (st ! a)"
    using a by (simp add: forEach_other)
  have "deref (forEach f refs ?st1) refs = map f (deref ?st1 refs)"
    using Cons.prems by (intro Cons.IH) simp_all
  also have "deref ?st1 refs = deref st refs"
  proof -
    have "?st1 ! b = st ! b" if "b \<in> set refs" for b
    proof -
      from that a(1) have "a \<noteq> b" by blast
      then show ?thesis by simp
    qed
    then show ?thesis by (simp add: deref_def)
  qed
  finally show ?case using fe hd by (simp add: deref_def)
qed

lemma take_self_le: "take (length st) st1 = st \<Longrightarrow> length st \<le> length st1"
proof -
  assume "take (length st) st1 = st"
  then have "length (take (length st) st1) = length st" by simp
  then show ?thesis by simp
qed

lemma deref_take:
  "take n st' = st \<Longrightarrow> \<forall>a\<in>set refs. a < length st \<Longrightarrow> deref st' refs = deref st refs"
proof -
  assume t: "take n st' = st" and r: "\<forall>a\<in>set refs. a < length st"
  have "st' ! a = st ! a" if "a \<in> set refs" for a
  proof -
    from that r have "a < length st" by simp
    with t have "a < n" by auto
    with t show ?thesis by (metis nth_take)
  qed
  then show ?thesis by (simp add: deref_def)
qed

lemma dynamicRegion_store_props:
  assumes "\<forall>a\<in>set (polygon region). a < length st"
    and "dynamicRegion_store regionMap region st = (r, st')"
  shows "rid r = rid region" "priority r = priority region" "tier r = tier region"
    and "take (length st) st' = st"
    and "\<forall>a\<in>set (polygon r). a < length st'"
    and "derefRegion st' r = dynamicRegion regionMap (derefRegion st region)"
proof -
  show "rid r = rid region" "priority r = priority region" "tier r = tier region"
    using assms(2)
    by (auto simp: dynamicRegion_store_def Let_def copyPolygon_def split: option.splits)
  show "take (length st) st' = st"
    and "\<forall>a\<in>set (polygon r). a < length st'"
    and "derefRegion st' r = dynamicRegion regionMap (derefRegion st region)"
  proof (atomize (full), cases "regionMap (rid region)")
    case None
    with assms show "take (length st) st' = st \<and> (\<forall>a\<in>set (polygon r). a < length st')
        \<and> derefRegion st' r = dynamicRegion regionMap (derefRegion st region)"
      by (simp add: dynamicRegion_store_def dynamicRegion_def derefRegion_def)
  next
    case (Some indicator)
    define m where "m = normalizeIndicator indicator"
    define fresh where "fresh = [length st ..< length st + length (polygon region)]"
    define st1 where "st1 = st @ deref st (polygon region)"
    define f where "f = distortion (rid region) m (deref st1 fresh)"
    have r: "r = \<lparr>rid = rid region, priority = priority region, polygon = fresh,
                  tier = tier region\<rparr>"
      and st': "st' = forEach f fresh st1"
      using assms(2) Some
      by (simp_all add: dynamicRegion_store_def Let_def copyPolygon_def m_def fresh_def
            st1_def f_def)
    have len1: "length st1 = length st + length (polygon region)"
      by (simp add: st1_def deref_def)
    have d1: "deref st1 fresh = deref st (polygon region)"
      unfolding fresh_def st1_def deref_def
      by (rule nth_equalityI) (simp_all add: nth_append)
    have fr: "take (length st) st' = st"
    proof (rule nth_equalityI)
      show "length (take (length st) st') = length st"
        by (simp add: st' forEach_length len1)
      fix a assume "a < length (take (length st) st')"
      then have a: "a < length st" by simp
      then have "a \<notin> set fresh" by (simp add: fresh_def)
      then have "st' ! a = st1 ! a" by (simp add: st' forEach_other)
      with a show "take (length st) st' ! a = st ! a"
        by (simp add: st1_def nth_append)
    qed
    have inr: "\<forall>a\<in>set (polygon r). a < length st'"
      by (simp add: r st' forEach_length len1 fresh_def)
    have "deref st' fresh = map f (deref st1 fresh)"
      unfolding st'
      by (rule forEach_deref) (simp_all add: fresh_def len1)
    then have "derefRegion st' r = dynamicRegion regionMap (derefRegion st region)"
      using Some by (simp add: derefRegion_def dynamicRegion_def r d1 f_def m_def Let_def)
    with fr inr show "take (length st) st' = st \<and> (\<forall>a\<in>set (polygon r). a < length st')
        \<and> derefRegion st' r = dynamicRegion regionMap (derefRegion st region)"
      by simp
  qed
qed

lemma derefRegion_take:
  "take n st' = st \<Longrightarrow> \<forall>a\<in>set (polygon r). a < length st \<Longrightarrow>
   derefRegion st' r = derefRegion st r"
proof -
  assume "take n st' = st" and "\<forall>a\<in>set (polygon r). a < length st"
  then have "deref st' (polygon r) = deref st (polygon r)"
    by (rule deref_take)
  then show ?thesis by (simp only: derefRegion_def)
qed

lemma map_store_props:
  assumes "\<forall>region\<in>set templates. \<forall>a\<in>set (polygon region). a < length st"
    and "map_store (dynamicRegion_store regionMap) templates st = (dyn, st')"
  shows "map rid dyn = map rid templates \<and> map priority dyn = map priority templates
       \<and> map tier dyn = map tier templates
       \<and> take (length st) st' = st
       \<and> (\<forall>r\<in>set dyn. \<forall>a\<in>set (polygon r). a < length st')
       \<and> map (derefRegion st') dyn
           = map (dynamicRegion regionMap) (map (derefRegion st) templates)"
  using assms
proof (induction templates arbitrary: st dyn st')
  case Nil
  then show ?case by simp
next
  case (Cons region rest)
  obtain r st1 where one: "dynamicRegion_store regionMap region st = (r, st1)"
    by (cases "dynamicRegion_store regionMap region st")
  obtain rs st2 where more: "map_store (dynamicRegion_store regionMap) rest st1 = (rs, st2)"
    by (cases "map_store (dynamicRegion_store regionMap) rest st1")
  from Cons.prems(2) one more have res: "dyn = r # rs" "st' = st2" by simp_all
  from Cons.prems(1) have wf: "\<forall>a\<in>set (polygon region). a < length st" by simp
  note p = dynamicRegion_store_props [OF wf one]
  from p(4) have le: "length st \<le> length st1"
    by (rule take_self_le)
  have wf1: "\<forall>region\<in>set rest. \<forall>a\<in>set (polygon region). a < length st1"
    using Cons.prems(1) le by fastforce
  note ih = Cons.IH [OF wf1 more]
  from ih have t12: "take (length st1) st2 = st1" by simp
  then have le2: "length st1 \<le> length st2"
    by (rule take_self_le)
  have fr: "take (length st) st2 = st"
  proof -
    have "take (length st) st2 = take (length st) (take (length st1) st2)"
      using le by (simp add: min_def)
    also have "\<dots> = st" using t12 p(4) by simp
    finally show ?thesis .
  qed
  have r2: "derefRegion st2 r = derefRegion st1 r"
    using t12 p(5) by (rule derefRegion_take)
  have rest1: "map (derefRegion st1) rest = map (derefRegion st) rest"
  proof (rule map_cong [OF refl])
    fix t assume "t \<in> set rest"
    with Cons.prems(1) have "\<forall>a\<in>set (polygon t). a < length st" by simp
    with p(4) show "derefRegion st1 t = derefRegion st t" by (rule derefRegion_take)
  qed
  have inr: "\<forall>a\<in>set (polygon r). a < length st2" using p(5) le2 by fastforce
  from ih p(1-3) fr r2 rest1 p(6) inr show ?case
    by (simp add: res)
qed

lemma allocRegions_props:
  "allocRegions rs st = (refs, st') \<Longrightarrow>
   take (length st) st' = st
   \<and> (\<forall>r\<in>set refs. \<forall>a\<in>set (polygon r). a < length st')
   \<and> map (derefRegion st') refs = rs"
proof (induction rs arbitrary: st refs st')
  case Nil
  then show ?case by simp
next
  case (Cons region rest)
  obtain rs' st2 where rec: "allocRegions rest (st @ polygon region) = (rs', st2)"
    by (cases "allocRegions rest (st @ polygon region)")
  define r where "r = \<lparr>rid = rid region, priority = priority region,
          polygon = [length st ..< length st + length (polygon region)],
          tier = tier region\<rparr>"
  from Cons.prems rec have res: "refs = r # rs'" "st' = st2" by (simp_all add: r_def)
  note ih = Cons.IH [OF rec]
  from ih have t: "take (length st + length (polygon region)) st2 = st @ polygon region"
    by simp
  then have "take (length (st @ polygon region)) st2 = st @ polygon region"
    by simp
  then have "length (st @ polygon region) \<le> length st2"
    by (rule take_self_le)
  then have le: "length st + length (polygon region) \<le> length st2"
    by simp
  have fr: "take (length st) st2 = st"
  proof -
    have "take (length st) st2
          = take (length st) (take (length st + length (polygon region)) st2)"
      by (simp add: min_def)
    also have "\<dots> = st" unfolding t by simp
    finally show ?thesis .
  qed
  have dr: "deref st2 (polygon r) = polygon region"
  proof (rule nth_equalityI)
    show "length (deref st2 (polygon r)) = length (polygon region)"
      by (simp add: deref_def r_def)
    fix i assume "i < length (deref st2 (polygon r))"
    then have i: "i < length (polygon region)" by (simp add: deref_def r_def)
    then have "st2 ! (length st + i)
          = take (length st + length (polygon region)) st2 ! (length st + i)" by simp
    also have "\<dots> = polygon region ! i" unfolding t by (simp add: nth_append)
    finally show "deref st2 (polygon r) ! i = polygon region ! i"
      using i by (simp add: deref_def r_def)
  qed
  have "derefRegion st2 r = region"
    by (simp add: derefRegion_def dr) (simp add: r_def)
  moreover have "\<forall>a\<in>set (polygon r). a < length st2"
    using le by (auto simp: r_def)
  ultimately show ?case using ih fr by (simp add: res)
qed

lemma dynamicRegion_same:
  "rid (dynamicRegion regionMap region) = rid region
   \<and> priority (dynamicRegion regionMap region) = priority region
   \<and> tier (dynamicRegion regionMap region) = tier region"
  by (simp add: dynamicRegion_def Let_def split: option.splits)

text \<open>
  C10.  For every template region, in catalogue order, \<open>getDynamicRegions\<close> returns a
  region with the same identity, priority and tier; at most the polygon differs.  The
  call writes no point object that existed before it: the store it leaves agrees with the
  store it found on every old address, so the template regions, read after the call, are
  \<open>FACE_REGIONS\<close> still.  The regions returned, read from the new store, are the regions
  of the value reading of \<open>getDynamicRegions\<close>.
\<close>

theorem getDynamicRegions_derived_copies:
  "map rid (fst (getDynamicRegions_store indicators regionMap (FACE_REGIONS_store @ others)))
     = map rid FACE_REGIONS
   \<and> map priority
         (fst (getDynamicRegions_store indicators regionMap (FACE_REGIONS_store @ others)))
     = map priority FACE_REGIONS
   \<and> map tier (fst (getDynamicRegions_store indicators regionMap (FACE_REGIONS_store @ others)))
     = map tier FACE_REGIONS
   \<and> take (length (FACE_REGIONS_store @ others))
         (snd (getDynamicRegions_store indicators regionMap (FACE_REGIONS_store @ others)))
     = FACE_REGIONS_store @ others
   \<and> map (derefRegion
             (snd (getDynamicRegions_store indicators regionMap (FACE_REGIONS_store @ others))))
         FACE_REGIONS_refs
     = FACE_REGIONS
   \<and> map (derefRegion
             (snd (getDynamicRegions_store indicators regionMap (FACE_REGIONS_store @ others))))
         (fst (getDynamicRegions_store indicators regionMap (FACE_REGIONS_store @ others)))
     = getDynamicRegions indicators regionMap
   \<and> map rid (getDynamicRegions indicators regionMap) = map rid FACE_REGIONS
   \<and> map priority (getDynamicRegions indicators regionMap) = map priority FACE_REGIONS
   \<and> map tier (getDynamicRegions indicators regionMap) = map tier FACE_REGIONS"
proof -
  define st where "st = FACE_REGIONS_store @ others"
  have alloc: "allocRegions FACE_REGIONS [] = (FACE_REGIONS_refs, FACE_REGIONS_store)"
    by (simp add: FACE_REGIONS_refs_def FACE_REGIONS_store_def)
  note a = allocRegions_props [OF alloc]
  have tk: "take (length FACE_REGIONS_store) st = FACE_REGIONS_store"
    by (simp add: st_def)
  have wf: "\<forall>region\<in>set FACE_REGIONS_refs. \<forall>a\<in>set (polygon region). a < length st"
    using a by (fastforce simp: st_def)
  have tmpl: "map (derefRegion st) FACE_REGIONS_refs = FACE_REGIONS"
  proof -
    have "map (derefRegion st) FACE_REGIONS_refs
          = map (derefRegion FACE_REGIONS_store) FACE_REGIONS_refs"
    proof (rule map_cong [OF refl])
      fix t assume "t \<in> set FACE_REGIONS_refs"
      with a have "\<forall>a\<in>set (polygon t). a < length FACE_REGIONS_store" by simp
      with tk show "derefRegion st t = derefRegion FACE_REGIONS_store t"
        by (rule derefRegion_take)
    qed
    with a show ?thesis by simp
  qed
  obtain dyn st' where run:
    "map_store (dynamicRegion_store regionMap) FACE_REGIONS_refs st = (dyn, st')"
    by (cases "map_store (dynamicRegion_store regionMap) FACE_REGIONS_refs st")
  then have res: "getDynamicRegions_store indicators regionMap st = (dyn, st')"
    by (simp add: getDynamicRegions_store_def)
  note m = map_store_props [OF wf run]
  from m have fr: "take (length st) st' = st" by simp
  have tmpl': "map (derefRegion st') FACE_REGIONS_refs = FACE_REGIONS"
  proof -
    have "map (derefRegion st') FACE_REGIONS_refs = map (derefRegion st) FACE_REGIONS_refs"
    proof (rule map_cong [OF refl])
      fix t assume "t \<in> set FACE_REGIONS_refs"
      with wf have "\<forall>a\<in>set (polygon t). a < length st" by simp
      with fr show "derefRegion st' t = derefRegion st t"
        by (rule derefRegion_take)
    qed
    with tmpl show ?thesis by simp
  qed
  have ids: "map rid FACE_REGIONS_refs = map rid FACE_REGIONS"
    "map priority FACE_REGIONS_refs = map priority FACE_REGIONS"
    "map tier FACE_REGIONS_refs = map tier FACE_REGIONS"
  proof -
    have "map rid (map (derefRegion st) FACE_REGIONS_refs) = map rid FACE_REGIONS_refs"
      "map priority (map (derefRegion st) FACE_REGIONS_refs) = map priority FACE_REGIONS_refs"
      "map tier (map (derefRegion st) FACE_REGIONS_refs) = map tier FACE_REGIONS_refs"
      by (simp_all add: derefRegion_def comp_def)
    then show "map rid FACE_REGIONS_refs = map rid FACE_REGIONS"
      "map priority FACE_REGIONS_refs = map priority FACE_REGIONS"
      "map tier FACE_REGIONS_refs = map tier FACE_REGIONS"
      by (simp_all only: tmpl)
  qed
  have val: "map (derefRegion st') dyn = getDynamicRegions indicators regionMap"
    using m by (simp only: tmpl getDynamicRegions_def)
  have vids: "map rid (getDynamicRegions indicators regionMap) = map rid FACE_REGIONS"
    "map priority (getDynamicRegions indicators regionMap) = map priority FACE_REGIONS"
    "map tier (getDynamicRegions indicators regionMap) = map tier FACE_REGIONS"
    by (simp_all add: getDynamicRegions_def comp_def dynamicRegion_same)
  from m ids fr tmpl' val vids show ?thesis
    unfolding st_def [symmetric] res by simp
qed

section \<open>The chin at the threshold\<close>

lemma chin_magnitude: "normalizeIndicator (chinIndicator m) = max 0 (min 1 m)"
  by (simp add: normalizeIndicator_def chinIndicator_def)

lemma chinAt_magnitude:
  "chinAt m = map (distortion Chin (max 0 (min 1 m)) [Pt 0.3 0.75, Pt 0.7 0.75, Pt 0.5 0.9])
                [Pt 0.3 0.75, Pt 0.7 0.75, Pt 0.5 0.9]"
  by (simp add: chinAt_def getDynamicRegions_def FACE_REGIONS_def dynamicRegion_def
        chin_magnitude Let_def)

lemma distortion_Chin:
  "map (distortion Chin \<mu> ps) [Pt 0.3 0.75, Pt 0.7 0.75, Pt 0.5 0.9]
   = [Pt 0.3 0.75, Pt 0.7 0.75,
      Pt (0.5 + 0.15 * ((\<mu> - 0.5) * 0.2) * (if \<mu> > 0.5 then 0.5 else 1)) 0.9]"
  by (simp add: distortion_def Let_def)

lemma chinAt_closed:
  "chinAt m = [Pt 0.3 0.75, Pt 0.7 0.75,
      Pt (0.5 + 0.15 * ((max 0 (min 1 m) - 0.5) * 0.2)
                 * (if max 0 (min 1 m) > 0.5 then 0.5 else 1)) 0.9]"
  unfolding chinAt_magnitude by (rule distortion_Chin)

lemma chinAt_half: "chinAt (1 / 2) = [Pt 0.3 0.75, Pt 0.7 0.75, Pt 0.5 0.9]"
  by (simp add: chinAt_closed)

lemma chin_fixed:
  "chinX 0 = (\<lambda>m. 0.3)" "chinY 0 = (\<lambda>m. 0.75)" "chinX 1 = (\<lambda>m. 0.7)"
  "chinY 1 = (\<lambda>m. 0.75)" "chinY 2 = (\<lambda>m. 0.9)"
  by (rule ext, simp add: chinX_def chinY_def chinAt_closed)+

lemma chin_tip:
  "chinX 2 m = 0.5 + 0.15 * ((max 0 (min 1 m) - 0.5) * 0.2)
                 * (if max 0 (min 1 m) > 0.5 then 0.5 else 1)"
  by (simp add: chinX_def chinAt_closed)

lemma chin_tip_lipschitz: "\<bar>chinX 2 m - chinX 2 (1 / 2)\<bar> \<le> 0.03 * \<bar>m - 1 / 2\<bar>"
proof -
  have half: "chinX 2 (1 / 2) = 1 / 2" by (simp add: chin_tip)
  consider "m \<le> 0" | "0 < m" "m \<le> 1 / 2" | "1 / 2 < m" "m \<le> 1" | "1 < m"
    by linarith
  then show ?thesis
  proof cases
    case 1
    then have e: "chinX 2 m - chinX 2 (1 / 2) = - 0.015"
      unfolding half by (simp add: chin_tip max_def min_def)
    have "\<bar>chinX 2 m - chinX 2 (1 / 2)\<bar> = \<bar>- 0.015\<bar>"
      by (simp only: e)
    also have "\<dots> \<le> 0.03 * \<bar>m - 1 / 2\<bar>"
      using 1 by (simp add: abs_if field_simps)
    finally show ?thesis .
  next
    case 2
    then have e: "chinX 2 m - chinX 2 (1 / 2) = 0.03 * (m - 1 / 2)"
      unfolding half by (simp add: chin_tip max_def min_def)
    have "\<bar>chinX 2 m - chinX 2 (1 / 2)\<bar> = \<bar>0.03 * (m - 1 / 2)\<bar>"
      by (simp only: e)
    also have "\<dots> \<le> 0.03 * \<bar>m - 1 / 2\<bar>"
      using 2 by (simp add: abs_if field_simps)
    finally show ?thesis .
  next
    case 3
    then have e: "chinX 2 m - chinX 2 (1 / 2) = 0.015 * (m - 1 / 2)"
      unfolding half by (simp add: chin_tip max_def min_def)
    have "\<bar>chinX 2 m - chinX 2 (1 / 2)\<bar> = \<bar>0.015 * (m - 1 / 2)\<bar>"
      by (simp only: e)
    also have "\<dots> \<le> 0.03 * \<bar>m - 1 / 2\<bar>"
      using 3 by (simp add: abs_if field_simps)
    finally show ?thesis .
  next
    case 4
    then have e: "chinX 2 m - chinX 2 (1 / 2) = 0.0075"
      unfolding half by (simp add: chin_tip max_def min_def)
    have "\<bar>chinX 2 m - chinX 2 (1 / 2)\<bar> = \<bar>0.0075\<bar>"
      by (simp only: e)
    also have "\<dots> \<le> 0.03 * \<bar>m - 1 / 2\<bar>"
      using 4 by (simp add: abs_if field_simps)
    finally show ?thesis .
  qed
qed

lemma lipschitz_isCont:
  fixes f :: "real \<Rightarrow> real"
  assumes lip: "\<And>x. \<bar>f x - f a\<bar> \<le> L * \<bar>x - a\<bar>" and L: "0 \<le> L"
  shows "isCont f a"
  unfolding isCont_def
proof (rule LIM_I)
  fix r :: real assume r: "0 < r"
  define s where "s = r / (L + 1)"
  from r L have s: "0 < s" by (simp add: s_def)
  have "norm (f x - f a) < r" if "norm (x - a) < s" for x
  proof -
    from that have "\<bar>x - a\<bar> < s" by simp
    with L have "L * \<bar>x - a\<bar> \<le> L * s" by (simp add: mult_left_mono)
    also have "L * s < r"
    proof -
      have "L * s = r * (L / (L + 1))" by (simp add: s_def)
      also have "\<dots> < r * 1"
        using r L by (intro mult_strict_left_mono) simp_all
      finally show ?thesis by simp
    qed
    finally have "L * \<bar>x - a\<bar> < r" .
    with lip [of x] show ?thesis by simp
  qed
  with s show "\<exists>s>0. \<forall>x. x \<noteq> a \<and> norm (x - a) < s \<longrightarrow> norm (f x - f a) < r"
    by blast
qed

lemma chin_isCont:
  "isCont (chinX 0) (1 / 2)" "isCont (chinY 0) (1 / 2)" "isCont (chinX 1) (1 / 2)"
  "isCont (chinY 1) (1 / 2)" "isCont (chinX 2) (1 / 2)" "isCont (chinY 2) (1 / 2)"
proof -
  show "isCont (chinX 2) (1 / 2)"
  proof (rule lipschitz_isCont)
    fix x show "\<bar>chinX 2 x - chinX 2 (1 / 2)\<bar> \<le> 0.03 * \<bar>x - 1 / 2\<bar>"
      by (rule chin_tip_lipschitz)
  qed simp
  show "isCont (chinX 0) (1 / 2)" "isCont (chinY 0) (1 / 2)" "isCont (chinX 1) (1 / 2)"
    "isCont (chinY 1) (1 / 2)" "isCont (chinY 2) (1 / 2)"
    unfolding chin_fixed by (rule continuous_const)+
qed

text \<open>
  C1, as stated, fails: the \<open>Chin\<close> polygon is continuous at magnitude 0.5 from above as
  well.  Every coordinate of every vertex is right-continuous at 0.5; at 0.501 the tip has
  moved by 0.000015, half of what it has moved at 0.499.
\<close>

theorem chin_right_continuous_counterexample:
  "continuous (at_right (1 / 2)) (chinX 0) \<and> continuous (at_right (1 / 2)) (chinY 0)
   \<and> continuous (at_right (1 / 2)) (chinX 1) \<and> continuous (at_right (1 / 2)) (chinY 1)
   \<and> continuous (at_right (1 / 2)) (chinX 2) \<and> continuous (at_right (1 / 2)) (chinY 2)
   \<and> chinAt 0.499 = [Pt 0.3 0.75, Pt 0.7 0.75, Pt 0.49997 0.9]
   \<and> chinAt 0.5 = [Pt 0.3 0.75, Pt 0.7 0.75, Pt 0.5 0.9]
   \<and> chinAt 0.501 = [Pt 0.3 0.75, Pt 0.7 0.75, Pt 0.500015 0.9]"
proof -
  have "chinAt 0.499 = [Pt 0.3 0.75, Pt 0.7 0.75, Pt 0.49997 0.9]"
    "chinAt 0.5 = [Pt 0.3 0.75, Pt 0.7 0.75, Pt 0.5 0.9]"
    "chinAt 0.501 = [Pt 0.3 0.75, Pt 0.7 0.75, Pt 0.500015 0.9]"
    by (simp_all add: chinAt_closed)
  with chin_isCont show ?thesis
    by (simp add: continuous_at_imp_continuous_at_within)
qed

text \<open>
  C1, as the code has it.  At magnitude exactly 0.5 the test \<open>magnitude > 0.5\<close> is false
  and the symmetric skew runs, with \<open>skewX = 0\<close>: the polygon is the template's.  As a
  function of the magnitude the polygon is continuous at 0.5, from below and from above:
  the vertices on the line \<open>y = 0.75\<close> never move, and the tip \<open>(0.5, 0.9)\<close> moves in
  \<open>x\<close> by \<open>0.03 * (m - 0.5)\<close> for \<open>m \<le> 0.5\<close> and by \<open>0.015 * (m - 0.5)\<close> for
  \<open>m > 0.5\<close> (its side factor is 0.5, its \<open>x\<close> not being above 0.5).  What changes at
  0.5 is the slope, not the value.
\<close>

theorem chin_kink:
  "chinAt (1 / 2) = polygon (FACE_REGIONS ! 6)
   \<and> chinAt (1 / 2) = map (\<lambda>p. p\<lparr>px := px p + (py p - 0.75) * ((1 / 2 - 0.5) * 0.2)\<rparr>)
                        (polygon (FACE_REGIONS ! 6))
   \<and> isCont (chinX 0) (1 / 2) \<and> isCont (chinY 0) (1 / 2)
   \<and> isCont (chinX 1) (1 / 2) \<and> isCont (chinY 1) (1 / 2)
   \<and> isCont (chinX 2) (1 / 2) \<and> isCont (chinY 2) (1 / 2)
   \<and> \<bar>chinX 2 m - chinX 2 (1 / 2)\<bar> \<le> 0.03 * \<bar>m - 1 / 2\<bar>
   \<and> (0 \<le> m \<and> m \<le> 1 / 2 \<longrightarrow>
        chinAt m = [Pt 0.3 0.75, Pt 0.7 0.75, Pt (0.5 + 0.03 * (m - 0.5)) 0.9])
   \<and> (1 / 2 < m \<and> m \<le> 1 \<longrightarrow>
        chinAt m = [Pt 0.3 0.75, Pt 0.7 0.75, Pt (0.5 + 0.015 * (m - 0.5)) 0.9])"
proof -
  have a: "chinAt (1 / 2) = polygon (FACE_REGIONS ! 6)"
    by (simp add: chinAt_half FACE_REGIONS_def)
  have b: "chinAt (1 / 2) = map (\<lambda>p. p\<lparr>px := px p + (py p - 0.75) * ((1 / 2 - 0.5) * 0.2)\<rparr>)
                        (polygon (FACE_REGIONS ! 6))"
    by (simp add: chinAt_half FACE_REGIONS_def)
  have lo: "chinAt m = [Pt 0.3 0.75, Pt 0.7 0.75, Pt (0.5 + 0.03 * (m - 0.5)) 0.9]"
    if "0 \<le> m \<and> m \<le> 1 / 2"
    using that by (simp add: chinAt_closed max_def min_def)
  have hi: "chinAt m = [Pt 0.3 0.75, Pt 0.7 0.75, Pt (0.5 + 0.015 * (m - 0.5)) 0.9]"
    if "1 / 2 < m \<and> m \<le> 1"
    using that by (simp add: chinAt_closed max_def min_def)
  from a b chin_isCont chin_tip_lipschitz [of m] lo hi show ?thesis by blast
qed

theorem chin_kink_witness:
  "(0::real) \<le> 0.499 \<and> (0.499::real) \<le> 1 / 2
   \<and> chinAt 0.499 = [Pt 0.3 0.75, Pt 0.7 0.75, Pt (0.5 + 0.03 * (0.499 - 0.5)) 0.9]
   \<and> (1 / 2 :: real) < 0.501 \<and> (0.501::real) \<le> 1
   \<and> chinAt 0.501 = [Pt 0.3 0.75, Pt 0.7 0.75, Pt (0.5 + 0.015 * (0.501 - 0.5)) 0.9]"
  using chin_kink [of "0.499"] chin_kink [of "0.501"]
  by simp

subsection \<open>A run on the store\<close>

text \<open>
  The templates occupy the addresses 0 to 36.  With an indicator of magnitude 0.75 on
  \<open>Chin\<close> alone, the call allocates three vertex objects at 37, 38 and 39, writes only
  those, and returns \<open>Chin\<close> with them; every other region keeps the template's objects.
\<close>

lemma FACE_REGIONS_layout:
  "map polygon FACE_REGIONS_refs
     = [[0, 1, 2, 3], [4, 5, 6, 7], [8, 9, 10, 11], [12, 13, 14, 15], [16, 17, 18, 19],
        [20, 21, 22, 23], [24, 25, 26], [27, 28, 29, 30, 31, 32], [33, 34, 35, 36]]
   \<and> length FACE_REGIONS_store = 37"
  by (simp add: FACE_REGIONS_refs_def FACE_REGIONS_store_def FACE_REGIONS_def upt_rec)

lemma getDynamicRegions_store_chin_run:
  "map polygon (fst (getDynamicRegions_store [chinIndicator 0.75]
        (\<lambda>r. if r = Chin then Some (chinIndicator 0.75) else None) FACE_REGIONS_store))
     = [[0, 1, 2, 3], [4, 5, 6, 7], [8, 9, 10, 11], [12, 13, 14, 15], [16, 17, 18, 19],
        [20, 21, 22, 23], [37, 38, 39], [27, 28, 29, 30, 31, 32], [33, 34, 35, 36]]
   \<and> snd (getDynamicRegions_store [chinIndicator 0.75]
        (\<lambda>r. if r = Chin then Some (chinIndicator 0.75) else None) FACE_REGIONS_store)
     = FACE_REGIONS_store @ [Pt 0.3 0.75, Pt 0.7 0.75, Pt 0.50375 0.9]"
  by (simp add: getDynamicRegions_store_def dynamicRegion_store_def copyPolygon_def
        forEach_def deref_def distortion_def chin_magnitude Let_def
        FACE_REGIONS_refs_def FACE_REGIONS_store_def FACE_REGIONS_def upt_rec)

section \<open>Affine warp\<close>

lemma collinear3_cross3: "collinear3 p0 p1 p2 \<longleftrightarrow> cross3 p0 p1 p2 = 0"
  by (auto simp: collinear3_def cross3_def algebra_simps)

lemma warpRegion_skip_iff:
  assumes "rid s \<noteq> Background" "3 \<le> length (polygon s)" "3 \<le> length (polygon t)"
  shows "warpRegion w h s (Some t) = Inr None
         \<longleftrightarrow> \<bar>w * h * cross3 (polygon s ! 0) (polygon s ! 1) (polygon s ! 2)\<bar> < 0.001"
proof -
  define D where "D = w * h * cross3 (polygon s ! 0) (polygon s ! 1) (polygon s ! 2)"
  have denom: "px (polygon s ! 0) * w * (py (polygon s ! 1) * h - py (polygon s ! 2) * h)
      - px (polygon s ! 1) * w * (py (polygon s ! 0) * h - py (polygon s ! 2) * h)
      + px (polygon s ! 2) * w * (py (polygon s ! 0) * h - py (polygon s ! 1) * h) = D"
    by (simp add: D_def cross3_def algebra_simps)
  have det: "px (polygon s ! 0) * w * (py (polygon s ! 1) * h - py (polygon s ! 2) * h)
      - py (polygon s ! 0) * h * (px (polygon s ! 1) * w - px (polygon s ! 2) * w)
      + (px (polygon s ! 1) * w * (py (polygon s ! 2) * h)
         - px (polygon s ! 2) * w * (py (polygon s ! 1) * h)) = D"
    by (simp add: D_def cross3_def algebra_simps)
  have "warpRegion w h s (Some t) = Inr None \<longleftrightarrow> \<bar>D\<bar> < 0.0001 \<or> \<bar>D\<bar> < 0.001"
    using assms unfolding warpRegion_def Let_def denom det
    by (simp del: One_nat_def)
  then show ?thesis unfolding D_def by auto
qed

lemma warpRegion_cases:
  "warpRegion w h s tr = Inr None \<or> warpRegion w h s tr = Inl TypeError
   \<or> (\<exists>op. warpRegion w h s tr = Inr (Some op))"
  by (cases "warpRegion w h s tr") (auto intro: js_error.exhaust)

lemma warpRegion_no_error:
  "rid s \<noteq> Background \<Longrightarrow> 3 \<le> length (polygon s) \<Longrightarrow> 3 \<le> length (polygon t) \<Longrightarrow>
   warpRegion w h s (Some t) \<noteq> Inl TypeError"
  by (simp add: warpRegion_def Let_def)

text \<open>
  C2, as the code has it.  For a region other than \<open>Background\<close>, with at least three
  vertices in source and target: when the first three source vertices are collinear the
  region's warp is skipped, so the canvas is left as it was (white, when it is the only
  region).  The region is skipped exactly when the determinant of the source triple, in
  pixels, is below 0.001 in absolute value; the target polygon has no part in that
  decision; a region that is not skipped is drawn.
\<close>

theorem warpRegion_skips_collinear_source:
  assumes "rid s \<noteq> Background" and "3 \<le> length (polygon s)"
    and "3 \<le> length (polygon t)" and "3 \<le> length (polygon t')"
  shows "(collinear3 (polygon s ! 0) (polygon s ! 1) (polygon s ! 2) \<longrightarrow>
            warpRegion w h s (Some t) = Inr None
            \<and> (i < length ts \<and> ts ! i = t \<longrightarrow>
                 warpCaricature_forEach w h ts i (s # rest) canvas
                 = warpCaricature_forEach w h ts (i + 1) rest canvas)
            \<and> warpCaricature True True w h [s] [t] = Canvas [])
       \<and> (warpRegion w h s (Some t) = Inr None
            \<longleftrightarrow> \<bar>w * h * cross3 (polygon s ! 0) (polygon s ! 1) (polygon s ! 2)\<bar> < 0.001)
       \<and> (warpRegion w h s (Some t) = Inr None \<longleftrightarrow> warpRegion w h s (Some t') = Inr None)
       \<and> (warpRegion w h s (Some t) \<noteq> Inr None \<longrightarrow>
            (\<exists>op. warpRegion w h s (Some t) = Inr (Some op)))"
proof -
  note iff = warpRegion_skip_iff [OF assms(1,2,3), of w h]
  note iff' = warpRegion_skip_iff [OF assms(1,2,4), of w h]
  have col: "warpRegion w h s (Some t) = Inr None"
    if "collinear3 (polygon s ! 0) (polygon s ! 1) (polygon s ! 2)"
    using that iff by (simp add: collinear3_cross3)
  have each: "warpCaricature_forEach w h ts i (s # rest) canvas
                 = warpCaricature_forEach w h ts (i + 1) rest canvas"
    if "warpRegion w h s (Some t) = Inr None" "i < length ts \<and> ts ! i = t"
    using that by (simp add: Let_def)
  have whole: "warpCaricature True True w h [s] [t] = Canvas []"
    if "warpRegion w h s (Some t) = Inr None"
    using that by (simp add: warpCaricature_def Let_def)
  have drawn: "\<exists>op. warpRegion w h s (Some t) = Inr (Some op)"
    if "warpRegion w h s (Some t) \<noteq> Inr None"
    using that warpRegion_cases [of w h s "Some t"] warpRegion_no_error [OF assms(1,2,3), of w h]
    by blast
  from col each whole drawn iff iff' show ?thesis by blast
qed

theorem warpRegion_skips_collinear_source_witness:
  "rid \<lparr>rid = Nose, priority = 3, polygon = [Pt 0.1 0.1, Pt 0.2 0.2, Pt 0.3 0.3, Pt 0.1 0.3],
        tier = primary\<rparr> \<noteq> Background
   \<and> collinear3 (Pt 0.1 0.1) (Pt 0.2 0.2) (Pt 0.3 0.3)
   \<and> warpCaricature True True 512 512
        [\<lparr>rid = Nose, priority = 3, polygon = [Pt 0.1 0.1, Pt 0.2 0.2, Pt 0.3 0.3, Pt 0.1 0.3],
          tier = primary\<rparr>]
        [FACE_REGIONS ! 2] = Canvas []
   \<and> rid (FACE_REGIONS ! 0) \<noteq> Background
   \<and> warpRegion 512 512 (FACE_REGIONS ! 0) (Some (FACE_REGIONS ! 0)) \<noteq> Inr None
   \<and> (\<exists>op. warpRegion 512 512 (FACE_REGIONS ! 0) (Some (FACE_REGIONS ! 0)) = Inr (Some op))"
proof -
  let ?s = "\<lparr>rid = Nose, priority = 3,
             polygon = [Pt 0.1 0.1, Pt 0.2 0.2, Pt 0.3 0.3, Pt 0.1 0.3], tier = primary\<rparr>"
  have c: "collinear3 (Pt 0.1 0.1) (Pt 0.2 0.2) (Pt 0.3 0.3)"
    by (simp add: collinear3_def)
  have n: "\<not> \<bar>512 * 512 * cross3 (polygon (FACE_REGIONS ! 0) ! 0)
              (polygon (FACE_REGIONS ! 0) ! 1) (polygon (FACE_REGIONS ! 0) ! 2)\<bar> < (0.001 :: real)"
    by (simp add: FACE_REGIONS_def cross3_def)
  from warpRegion_skips_collinear_source
         [of ?s "FACE_REGIONS ! 2" "FACE_REGIONS ! 2" 512 512] c
  have a: "warpCaricature True True 512 512 [?s] [FACE_REGIONS ! 2] = Canvas []"
    by (simp add: FACE_REGIONS_def)
  from warpRegion_skips_collinear_source
         [of "FACE_REGIONS ! 0" "FACE_REGIONS ! 0" "FACE_REGIONS ! 0" 512 512] n
  have b: "warpRegion 512 512 (FACE_REGIONS ! 0) (Some (FACE_REGIONS ! 0)) \<noteq> Inr None
     \<and> (\<exists>op. warpRegion 512 512 (FACE_REGIONS ! 0) (Some (FACE_REGIONS ! 0)) = Inr (Some op))"
    by (simp add: FACE_REGIONS_def)
  from a b c show ?thesis by (simp add: FACE_REGIONS_def)
qed

text \<open>
  C2, as stated, fails for a collinear target triple: with the \<open>Forehead\<close> template as
  source and a target whose first three vertices lie on the line \<open>y = 0.1\<close>, the region is
  drawn, through the singular transform \<open>(1, 0, 0, 0, 0, 51.2)\<close>.
\<close>

theorem warpCaricature_collinear_target_counterexample:
  "rid (FACE_REGIONS ! 0) = Forehead
   \<and> collinear3 (Pt 0.3 0.1) (Pt 0.7 0.1) (Pt 0.8 0.1)
   \<and> warpCaricature True True 512 512 [FACE_REGIONS ! 0]
        [\<lparr>rid = Forehead, priority = 1,
          polygon = [Pt 0.3 0.1, Pt 0.7 0.1, Pt 0.8 0.1, Pt 0.2 0.25], tier = primary\<rparr>]
      = Canvas [\<lparr>clip = [Pt 153.6 51.2, Pt 358.4 51.2, Pt 409.6 51.2, Pt 102.4 128],
                 matrix = \<lparr>ta = 1, tb = 0, tc = 0, td = 0, te = 0, tf = 51.2\<rparr>\<rparr>]"
  by (simp add: FACE_REGIONS_def collinear3_def warpCaricature_def warpRegion_def Let_def)

end
